theory Spec2Isabelle
  imports Complex_Main "HOL-Library.Sublist"
begin

section \<open>Python built-ins used by the dashboard\<close>

text \<open>
  Strings are lists of characters. The clock \<open>time.time()\<close> is a real number of seconds
  (the two clock values that the cooldown subtracts lie within a factor of two of each
  other, where the subtraction of binary floats is exact); \<open>int(time.time())\<close> is its floor.
  The numeric fields of the snapshots are Python integers.
\<close>

definition digit_char :: "nat \<Rightarrow> char" where
  "digit_char d = ''0123456789'' ! d"

fun digits :: "nat \<Rightarrow> string" where
  "digits n = (if n < 10 then [digit_char n] else digits (n div 10) @ [digit_char (n mod 10)])"

declare digits.simps [simp del]

text \<open>\<open>str(i)\<close> of a Python integer, as the f-strings print it.\<close>

definition str_int :: "int \<Rightarrow> string" where
  "str_int i = (if i < 0 then CHR ''-'' # digits (nat (- i)) else digits (nat i))"

text \<open>\<open>s.startswith(p)\<close>.\<close>

definition startswith :: "string \<Rightarrow> string \<Rightarrow> bool" where
  "startswith s p = (take (length p) s = p)"

text \<open>\<open>p in s\<close> for strings: \<open>p\<close> occurs in \<open>s\<close> as a contiguous substring.\<close>

fun contains :: "string \<Rightarrow> string \<Rightarrow> bool" where
  "contains [] p = (p = [])"
| "contains (c # cs) p = (startswith (c # cs) p \<or> contains cs p)"

text \<open>
  \<open>s.lower()\<close> on the code points below 256: the ASCII capitals and the Latin-1 capitals
  (all of 192..222 but the multiplication sign 215) move up by 32.
\<close>

definition lower_char :: "char \<Rightarrow> char" where
  "lower_char c =
     (let n = (of_char c :: nat)
      in if (65 \<le> n \<and> n \<le> 90) \<or> (192 \<le> n \<and> n \<le> 222 \<and> n \<noteq> 215)
         then char_of (n + 32) else c)"

definition lower :: "string \<Rightarrow> string" where
  "lower s = map lower_char s"

text \<open>\<open>d.get(k, {}).get(k', 0)\<close> on a snapshot: a missing key reads as 0.\<close>

definition get0 :: "int option \<Rightarrow> int" where
  "get0 v = (case v of None \<Rightarrow> 0 | Some x \<Rightarrow> x)"

text \<open>\<open>xs[-n:]\<close>: the last \<open>n\<close> elements, all of them when there are fewer.\<close>

definition last_n :: "nat \<Rightarrow> 'a list \<Rightarrow> 'a list" where
  "last_n n xs = drop (length xs - n) xs"

section \<open>Snapshots and Threats\<close>

text \<open>
  A snapshot dict is a record of the fields the core reads; \<open>None\<close> is a key that the
  collector left out (its error snapshots carry none of them).
\<close>

record system_data =
  cpu_usage_percent :: "int option"
  memory_usage_percent :: "int option"
  disk_usage_percent :: "int option"
  processes_total_count :: "int option"

record network_data =
  connections_total :: "int option"
  connections_listening :: "int option"
  traffic_errors_in :: "int option"
  traffic_errors_out :: "int option"

record event =
  e_severity :: "string option"
  e_message :: "string option"

text \<open>
  \<open>security_data\<close>: a missing list and an empty one behave alike in every read
  (\<open>.get(k)\<close> is falsy, \<open>len(.get(k, []))\<close> is 0), so each is a plain list.
\<close>

record security_data =
  system_metrics :: "system_data list"
  network_traffic :: "network_data list"
  security_events :: "event list"

datatype detail = Num int | Nums "int list" | Events "event list"

type_synonym details = "(string \<times> detail) list"

text \<open>
  A Threat dict. The keys that \<open>create_alert\<close> reads with \<open>.get\<close> are optional.
\<close>

record threat =
  t_id :: "string option"
  t_timestamp :: real
  t_type :: "string option"
  t_severity :: "string option"
  t_description :: "string option"
  t_source :: "string option"
  t_details :: "details option"
  t_status :: string

section \<open>ThreatDetector\<close>

definition cpu_threshold :: int where "cpu_threshold = 95"
definition memory_threshold :: int where "memory_threshold = 98"
definition disk_threshold :: int where "disk_threshold = 95"
definition connection_threshold :: int where "connection_threshold = 1500"
definition port_scan_threshold :: int where "port_scan_threshold = 50"
definition failed_logins_threshold :: nat where "failed_logins_threshold = 5"
definition alert_cooldown :: real where "alert_cooldown = 60"

record analysis_record =
  ar_timestamp :: real
  threats_found :: nat
  analysis_duration_ms :: int

record threat_detector =
  detected_threats :: "threat list"
  analysis_history :: "analysis_record list"
  last_alert_time :: "string \<rightharpoonup> real"

definition ThreatDetector_init :: threat_detector where
  "ThreatDetector_init =
     \<lparr>detected_threats = [], analysis_history = [], last_alert_time = Map.empty\<rparr>"

text \<open>
  The identifier every check builds, \<open>f'{name}_{int(time.time())}'\<close>, and the names the
  checks use, in the order \<open>analyze_data\<close> runs them.
\<close>

definition threat_identifier :: "real \<Rightarrow> string \<Rightarrow> string" where
  "threat_identifier now name = name @ ''_'' @ str_int \<lfloor>now\<rfloor>"

definition check_names :: "string list" where
  "check_names =
     [''cpu_abuse'', ''memory_abuse'', ''disk_abuse'', ''process_anomaly'', ''network_anomaly'',
      ''port_scan'', ''network_errors'', ''high_severity_events'', ''brute_force'',
      ''rapid_cpu_increase'', ''network_spike'']"

text \<open>
  The dict literal every check appends: \<open>status\<close> is always \<open>detected\<close>, and the
  timestamp is the clock.
\<close>

definition mk_threat ::
  "real \<Rightarrow> string \<Rightarrow> string \<Rightarrow> string \<Rightarrow> string \<Rightarrow> string \<Rightarrow> details \<Rightarrow> threat" where
  "mk_threat now name ty sev descr src det =
     \<lparr>t_id = Some (threat_identifier now name), t_timestamp = now, t_type = Some ty,
      t_severity = Some sev, t_description = Some descr, t_source = Some src,
      t_details = Some det, t_status = ''detected''\<rparr>"

text \<open>\<open>_should_send_alert\<close>: the answer and the detector with its cooldown map updated.\<close>

definition should_send_alert :: "real \<Rightarrow> string \<Rightarrow> threat_detector \<Rightarrow> bool \<times> threat_detector" where
  "should_send_alert current_time alert_type d =
     (case last_alert_time d alert_type of
        None \<Rightarrow> (True, d\<lparr>last_alert_time := (last_alert_time d)(alert_type \<mapsto> current_time)\<rparr>)
      | Some last_time \<Rightarrow>
          if current_time - last_time \<ge> alert_cooldown
          then (True, d\<lparr>last_alert_time := (last_alert_time d)(alert_type \<mapsto> current_time)\<rparr>)
          else (False, d))"

text \<open>
  The four \<open>if\<close> blocks of \<open>_analyze_system_metrics\<close>, one definition each. Only
  the last one consults and updates the cooldown map.
\<close>

definition cpu_check :: "real \<Rightarrow> system_data \<Rightarrow> threat list" where
  "cpu_check now sd =
     (if get0 (cpu_usage_percent sd) > cpu_threshold
      then [mk_threat now ''cpu_abuse'' ''resource_abuse'' ''medium''
              (''High CPU usage detected: '' @ str_int (get0 (cpu_usage_percent sd)) @ ''%'')
              ''system_monitor''
              [(''cpu_usage'', Num (get0 (cpu_usage_percent sd))), (''threshold'', Num cpu_threshold)]]
      else [])"

definition memory_check :: "real \<Rightarrow> system_data \<Rightarrow> threat list" where
  "memory_check now sd =
     (if get0 (memory_usage_percent sd) > memory_threshold
      then [mk_threat now ''memory_abuse'' ''resource_abuse'' ''medium''
              (''High memory usage detected: '' @ str_int (get0 (memory_usage_percent sd)) @ ''%'')
              ''system_monitor''
              [(''memory_usage'', Num (get0 (memory_usage_percent sd))),
               (''threshold'', Num memory_threshold)]]
      else [])"

definition disk_check :: "real \<Rightarrow> system_data \<Rightarrow> threat list" where
  "disk_check now sd =
     (if get0 (disk_usage_percent sd) > disk_threshold
      then [mk_threat now ''disk_abuse'' ''resource_abuse'' ''medium''
              (''High disk usage detected: '' @ str_int (get0 (disk_usage_percent sd)) @ ''%'')
              ''system_monitor''
              [(''disk_usage'', Num (get0 (disk_usage_percent sd))), (''threshold'', Num disk_threshold)]]
      else [])"

definition process_check :: "real \<Rightarrow> system_data \<Rightarrow> threat_detector \<Rightarrow> threat list \<times> threat_detector" where
  "process_check now sd d =
     (if get0 (processes_total_count sd) > 500
      then (case should_send_alert now ''process_anomaly'' d of
              (True, d') \<Rightarrow>
                ([mk_threat now ''process_anomaly'' ''suspicious_process'' ''medium''
                    (''Unusually high number of processes: '' @ str_int (get0 (processes_total_count sd)))
                    ''system_monitor''
                    [(''process_count'', Num (get0 (processes_total_count sd))), (''threshold'', Num 500)]],
                 d')
            | (False, d') \<Rightarrow> ([], d'))
      else ([], d))"

text \<open>
  \<open>_analyze_system_metrics\<close>. With integer fields no statement of its \<open>try\<close> block can
  raise, so the \<open>except\<close> branch (an \<open>analysis_error\<close> Threat) has no input here.
\<close>

definition analyze_system_metrics ::
  "real \<Rightarrow> system_data \<Rightarrow> threat_detector \<Rightarrow> threat list \<times> threat_detector" where
  "analyze_system_metrics now sd d =
     (let (ps, d') = process_check now sd d
      in (cpu_check now sd @ memory_check now sd @ disk_check now sd @ ps, d'))"

definition analyze_network_traffic :: "real \<Rightarrow> network_data \<Rightarrow> threat list" where
  "analyze_network_traffic now nd =
     (if get0 (connections_total nd) > connection_threshold
      then [mk_threat now ''network_anomaly'' ''network_anomaly'' ''high''
              (''Excessive network connections detected: '' @ str_int (get0 (connections_total nd)))
              ''network_monitor''
              [(''connection_count'', Num (get0 (connections_total nd))),
               (''threshold'', Num connection_threshold)]]
      else [])
     @ (if get0 (connections_listening nd) > port_scan_threshold
        then [mk_threat now ''port_scan'' ''network_anomaly'' ''high''
                (''High number of listening ports: '' @ str_int (get0 (connections_listening nd)))
                ''network_monitor''
                [(''listening_ports'', Num (get0 (connections_listening nd))),
                 (''threshold'', Num port_scan_threshold)]]
        else [])
     @ (if get0 (traffic_errors_in nd) > 100 \<or> get0 (traffic_errors_out nd) > 100
        then [mk_threat now ''network_errors'' ''network_anomaly'' ''medium''
                ''High network error rate detected'' ''network_monitor''
                [(''errors_in'', Num (get0 (traffic_errors_in nd))),
                 (''errors_out'', Num (get0 (traffic_errors_out nd)))]]
        else [])"

definition is_high :: "event \<Rightarrow> bool" where
  "is_high e = (e_severity e = Some ''high'')"

definition is_failed_login :: "event \<Rightarrow> bool" where
  "is_failed_login e =
     contains (case e_message e of None \<Rightarrow> [] | Some m \<Rightarrow> m) ''Failed login attempt''"

definition analyze_security_events :: "real \<Rightarrow> event list \<Rightarrow> threat list" where
  "analyze_security_events now events =
     (let high_severity = filter is_high events;
          failed_logins = filter is_failed_login events
      in (if length high_severity > 0
          then [mk_threat now ''high_severity_events'' ''security_event'' ''high''
                  (''Multiple high severity security events detected: ''
                     @ str_int (int (length high_severity)))
                  ''security_monitor''
                  [(''high_severity_count'', Num (int (length high_severity))),
                   (''events'', Events (take 5 high_severity))]]
          else [])
         @ (if length failed_logins \<ge> failed_logins_threshold
            then [mk_threat now ''brute_force'' ''brute_force'' ''high''
                    (''Potential brute force attack detected: ''
                       @ str_int (int (length failed_logins)) @ '' failed login attempts'')
                    ''security_monitor''
                    [(''failed_attempts'', Num (int (length failed_logins))),
                     (''threshold'', Num (int failed_logins_threshold))]]
            else []))"

text \<open>The two trend checks of \<open>_analyze_patterns\<close>, over the last three snapshots.\<close>

definition cpu_trend_check :: "real \<Rightarrow> security_data \<Rightarrow> threat list" where
  "cpu_trend_check now sdata =
     (if length (system_metrics sdata) \<ge> 3
      then (let cpu_trend = map (\<lambda>m. get0 (cpu_usage_percent m)) (last_n 3 (system_metrics sdata))
            in if length cpu_trend \<ge> 2 \<and> last cpu_trend - hd cpu_trend > 30
               then [mk_threat now ''rapid_cpu_increase'' ''resource_abuse'' ''medium''
                       ''Rapid CPU usage increase detected'' ''pattern_analyzer''
                       [(''cpu_trend'', Nums cpu_trend),
                        (''increase'', Num (last cpu_trend - hd cpu_trend))]]
               else [])
      else [])"

definition network_spike_check :: "real \<Rightarrow> security_data \<Rightarrow> threat list" where
  "network_spike_check now sdata =
     (if length (network_traffic sdata) \<ge> 3
      then (let connection_counts =
                  map (\<lambda>t. get0 (connections_total t)) (last_n 3 (network_traffic sdata))
            in if length connection_counts \<ge> 2 \<and> last connection_counts - hd connection_counts > 500
               then [mk_threat now ''network_spike'' ''network_anomaly'' ''medium''
                       ''Sudden network traffic spike detected'' ''pattern_analyzer''
                       [(''connection_trend'', Nums connection_counts),
                        (''spike'', Num (last connection_counts - hd connection_counts))]]
               else [])
      else [])"

definition analyze_patterns :: "real \<Rightarrow> security_data \<Rightarrow> threat list" where
  "analyze_patterns now sdata = cpu_trend_check now sdata @ network_spike_check now sdata"

text \<open>
  \<open>analyze_data\<close>: \<open>now\<close> is the clock during the pass (read once: a pass takes well
  under a second), \<open>duration\<close> the value drawn by \<open>random.randint(50, 200)\<close>. The
  result is the Threat list and the detector, whose cooldown map and analysis history (at
  most 100 records) are updated. On snapshots and events of these types no statement of
  the \<open>try\<close> blocks of the five analysis methods can raise, so their \<open>except\<close>
  branches, which would add an \<open>analysis_error\<close> Threat, have no input here.
\<close>

definition analyze_data ::
  "real \<Rightarrow> int \<Rightarrow> security_data \<Rightarrow> threat_detector \<Rightarrow> threat list \<times> threat_detector" where
  "analyze_data now duration sdata d =
     (let (system_threats, d1) =
            (if system_metrics sdata \<noteq> []
             then analyze_system_metrics now (last (system_metrics sdata)) d
             else ([], d));
          network_threats =
            (if network_traffic sdata \<noteq> []
             then analyze_network_traffic now (last (network_traffic sdata))
             else []);
          event_threats =
            (if security_events sdata \<noteq> []
             then analyze_security_events now (security_events sdata)
             else []);
          threats = system_threats @ network_threats @ event_threats @ analyze_patterns now sdata;
          history = analysis_history d1 @
            [\<lparr>ar_timestamp = now, threats_found = length threats, analysis_duration_ms = duration\<rparr>]
      in (threats,
          d1\<lparr>analysis_history := (if length history > 100 then last_n 100 history else history)\<rparr>))"

definition threats_of_type :: "string \<Rightarrow> threat list \<Rightarrow> threat list" where
  "threats_of_type ty ts = filter (\<lambda>t. t_type t = Some ty) ts"

definition threats_of_source :: "string \<Rightarrow> threat list \<Rightarrow> threat list" where
  "threats_of_source src ts = filter (\<lambda>t. t_source t = Some src) ts"

section \<open>AlertManager\<close>

text \<open>
  An alert dict, with the keys in the order \<open>create_alert\<close> writes them. The ISO
  timestamps are the clock values they print. \<open>None\<close> is Python's \<open>None\<close>.
\<close>

record alert =
  alert_id :: string
  threat_id :: "string option"
  timestamp :: real
  alert_type :: string
  severity :: string
  description :: string
  source :: string
  status :: string
  details :: details
  priority :: int
  color :: string
  icon :: string
  escalation_time :: real
  auto_resolve :: bool
  notification_channels :: "string list"
  acknowledged :: bool
  acknowledged_by :: "string option"
  acknowledged_at :: "real option"
  resolved :: bool
  resolved_at :: "real option"
  resolution_notes :: "string option"

record alert_rule =
  rule_auto_resolve :: bool
  rule_resolve_threshold :: "int option"
  rule_escalation_time :: int
  rule_notification_channels :: "string list"

record severity_level =
  level_priority :: int
  level_color :: string
  level_icon :: string

definition resource_abuse_rule :: alert_rule where
  "resource_abuse_rule =
     \<lparr>rule_auto_resolve = True, rule_resolve_threshold = Some 70, rule_escalation_time = 300,
      rule_notification_channels = [''dashboard'', ''log'']\<rparr>"

definition alert_rules :: "string \<Rightarrow> alert_rule option" where
  "alert_rules ty =
     (if ty = ''resource_abuse'' then Some resource_abuse_rule
      else if ty = ''network_anomaly'' then
        Some \<lparr>rule_auto_resolve = False, rule_resolve_threshold = None, rule_escalation_time = 180,
              rule_notification_channels = [''dashboard'', ''log'', ''email'']\<rparr>
      else if ty = ''brute_force'' then
        Some \<lparr>rule_auto_resolve = False, rule_resolve_threshold = None, rule_escalation_time = 60,
              rule_notification_channels = [''dashboard'', ''log'', ''email'', ''sms'']\<rparr>
      else if ty = ''security_event'' then
        Some \<lparr>rule_auto_resolve = False, rule_resolve_threshold = None, rule_escalation_time = 120,
              rule_notification_channels = [''dashboard'', ''log'', ''email'']\<rparr>
      else None)"

definition severity_levels :: "string \<Rightarrow> severity_level option" where
  "severity_levels sev =
     (if sev = ''low'' then
        Some \<lparr>level_priority = 1, level_color = ''#28a745'', level_icon = ''info-circle''\<rparr>
      else if sev = ''medium'' then
        Some \<lparr>level_priority = 2, level_color = ''#ffc107'', level_icon = ''exclamation-triangle''\<rparr>
      else if sev = ''high'' then
        Some \<lparr>level_priority = 3, level_color = ''#fd7e14'', level_icon = ''exclamation-circle''\<rparr>
      else if sev = ''critical'' then
        Some \<lparr>level_priority = 4, level_color = ''#dc3545'', level_icon = ''times-circle''\<rparr>
      else None)"

text \<open>\<open>d.get(k, default)\<close> once the lookup is an option.\<close>

definition get_or :: "'a \<Rightarrow> 'a option \<Rightarrow> 'a" where
  "get_or dflt v = (case v of None \<Rightarrow> dflt | Some x \<Rightarrow> x)"

text \<open>What the manager prints, one constructor for each message.\<close>

datatype message =
    NewAlertCreated string string
  | AlertAcknowledged string string
  | AlertResolved string string
  | AlertEscalated string
  | AutoResolved nat
  | CleanedUp nat

text \<open>
  The manager: its two lists and what it has printed. \<open>resolved_alerts\<close> is no
  attribute of the class. It is the part of the Python heap that the lists no longer reach:
  the dicts that \<open>resolve_alert\<close> has marked and taken out of \<open>self.alerts\<close>, in that
  order. They stay alive through the reference that \<open>create_alert\<close> returned (the
  driving loop keeps it), and no method of the manager reads or writes them again.
\<close>

record alert_manager =
  alerts :: "alert list"
  alert_history :: "alert list"
  printed :: "message list"
  resolved_alerts :: "alert list"

definition AlertManager_init :: alert_manager where
  "AlertManager_init = \<lparr>alerts = [], alert_history = [], printed = [], resolved_alerts = []\<rparr>"

text \<open>
  \<open>create_alert\<close>: \<open>now\<close> is the clock and \<open>rnd\<close> the value drawn by
  \<open>random.randint(1000, 9999)\<close>. The list and the history hold two separate dicts
  (\<open>alert.copy()\<close>), here two values. No statement of the \<open>try\<close> block can raise on a
  Threat of this type, so the alert is always returned.
\<close>

definition create_alert :: "real \<Rightarrow> int \<Rightarrow> threat \<Rightarrow> alert_manager \<Rightarrow> alert \<times> alert_manager" where
  "create_alert now rnd th m =
     (let ty = get_or ''unknown'' (t_type th);
          sev = get_or ''medium'' (t_severity th);
          a = \<lparr>alert_id = ''alert_'' @ str_int \<lfloor>now\<rfloor> @ ''_'' @ str_int rnd,
               threat_id = t_id th,
               timestamp = now,
               alert_type = ty,
               severity = sev,
               description = get_or ''Unknown threat detected'' (t_description th),
               source = get_or ''unknown'' (t_source th),
               status = ''active'',
               details = get_or [] (t_details th),
               priority = get_or 1 (map_option level_priority (severity_levels sev)),
               color = get_or ''#6c757d'' (map_option level_color (severity_levels sev)),
               icon = get_or ''question-circle'' (map_option level_icon (severity_levels sev)),
               escalation_time =
                 now + real_of_int (get_or 300 (map_option rule_escalation_time (alert_rules ty))),
               auto_resolve = get_or False (map_option rule_auto_resolve (alert_rules ty)),
               notification_channels =
                 get_or [''dashboard''] (map_option rule_notification_channels (alert_rules ty)),
               acknowledged = False,
               acknowledged_by = None,
               acknowledged_at = None,
               resolved = False,
               resolved_at = None,
               resolution_notes = None\<rparr>;
          history = alert_history m @ [a]
      in (a, \<lparr>alerts = alerts m @ [a],
              alert_history = (if length history > 1000 then last_n 1000 history else history),
              printed = printed m @ [NewAlertCreated (description a) (severity a)],
              resolved_alerts = resolved_alerts m\<rparr>))"

text \<open>
  \<open>_find_alert\<close> returns a reference to the first dict of the list with the id; the
  position of that dict stands for the reference.
\<close>

fun find_alert :: "alert list \<Rightarrow> string \<Rightarrow> nat option" where
  "find_alert [] aid = None"
| "find_alert (a # as) aid =
     (if alert_id a = aid then Some 0 else map_option Suc (find_alert as aid))"

definition acknowledge_alert :: "real \<Rightarrow> string \<Rightarrow> string \<Rightarrow> alert_manager \<Rightarrow> bool \<times> alert_manager" where
  "acknowledge_alert now aid user m =
     (case find_alert (alerts m) aid of
        Some i \<Rightarrow>
          (True, m\<lparr>alerts := (alerts m)[i := (alerts m ! i)
                      \<lparr>acknowledged := True, acknowledged_by := Some user, acknowledged_at := Some now\<rparr>],
                    printed := printed m @ [AlertAcknowledged aid user]\<rparr>)
      | None \<Rightarrow> (False, m))"

text \<open>
  \<open>resolve_alert\<close> writes to the dict found, then \<open>self.alerts.remove(alert)\<close> deletes
  the first element of the list equal to it; the dict written is from then on one of the
  \<open>resolved_alerts\<close>.
\<close>

definition resolve_alert ::
  "real \<Rightarrow> string \<Rightarrow> string \<Rightarrow> string option \<Rightarrow> alert_manager \<Rightarrow> bool \<times> alert_manager" where
  "resolve_alert now aid user notes m =
     (case find_alert (alerts m) aid of
        Some i \<Rightarrow>
          (let a = (alerts m ! i)
                     \<lparr>status := ''resolved'', resolved := True, resolved_at := Some now,
                      resolution_notes := notes\<rparr>
           in (True, m\<lparr>alerts := remove1 a ((alerts m)[i := a]),
                        printed := printed m @ [AlertResolved aid user],
                        resolved_alerts := resolved_alerts m @ [a]\<rparr>))
      | None \<Rightarrow> (False, m))"

definition escalate_alert :: "real \<Rightarrow> string \<Rightarrow> alert_manager \<Rightarrow> bool \<times> alert_manager" where
  "escalate_alert now aid m =
     (case find_alert (alerts m) aid of
        Some i \<Rightarrow>
          if status (alerts m ! i) = ''active''
          then (True, m\<lparr>alerts := (alerts m)[i := (alerts m ! i)
                           \<lparr>status := ''escalated'', escalation_time := now\<rparr>],
                         printed := printed m @ [AlertEscalated aid]\<rparr>)
          else (False, m)
      | None \<Rightarrow> (False, m))"

text \<open>
  \<open>_check_resource_resolution\<close>; a rule without \<open>resolve_threshold\<close> would raise
  KeyError, which the \<open>except\<close> turns into False.
\<close>

definition check_resource_resolution :: "alert \<Rightarrow> security_data \<Rightarrow> bool" where
  "check_resource_resolution a current_metrics =
     (if system_metrics current_metrics = [] then False
      else (let latest_metrics = last (system_metrics current_metrics)
            in case rule_resolve_threshold resource_abuse_rule of
                 None \<Rightarrow> False
               | Some threshold \<Rightarrow>
                   if startswith (description a) ''High CPU usage''
                   then get0 (cpu_usage_percent latest_metrics) < threshold
                   else if startswith (description a) ''High memory usage''
                   then get0 (memory_usage_percent latest_metrics) < threshold
                   else if startswith (description a) ''High disk usage''
                   then get0 (disk_usage_percent latest_metrics) < threshold
                   else False))"

definition check_network_resolution :: "alert \<Rightarrow> security_data \<Rightarrow> bool" where
  "check_network_resolution a current_metrics =
     (if network_traffic current_metrics = [] then False
      else (let latest_network = last (network_traffic current_metrics)
            in if startswith (description a) ''Excessive network connections''
               then get0 (connections_total latest_network) < 1000
               else if startswith (description a) ''High number of listening ports''
               then get0 (connections_listening latest_network) < 30
               else False))"

text \<open>
  The loop of \<open>auto_resolve_alerts\<close> over the copy \<open>self.alerts[:]\<close>, carrying
  \<open>resolved_count\<close> and the manager.
\<close>

fun auto_resolve_loop ::
  "real \<Rightarrow> security_data \<Rightarrow> alert list \<Rightarrow> nat \<Rightarrow> alert_manager \<Rightarrow> nat \<times> alert_manager" where
  "auto_resolve_loop now cm [] resolved_count m = (resolved_count, m)"
| "auto_resolve_loop now cm (a # as) resolved_count m =
     (if \<not> auto_resolve a then auto_resolve_loop now cm as resolved_count m
      else if alert_type a = ''resource_abuse'' then
        (if check_resource_resolution a cm
         then auto_resolve_loop now cm as (resolved_count + 1)
                (snd (resolve_alert now (alert_id a) ''system_auto_resolve''
                        (Some ''Resource usage normalized'') m))
         else auto_resolve_loop now cm as resolved_count m)
      else if alert_type a = ''network_anomaly'' then
        (if check_network_resolution a cm
         then auto_resolve_loop now cm as (resolved_count + 1)
                (snd (resolve_alert now (alert_id a) ''system_auto_resolve''
                        (Some ''Network activity normalized'') m))
         else auto_resolve_loop now cm as resolved_count m)
      else auto_resolve_loop now cm as resolved_count m)"

text \<open>
  What a Python call hands back: \<open>None\<close> (also when the body ends without
  \<open>return\<close>) or an integer.
\<close>

datatype pyval = PyNone | PyInt int

definition auto_resolve_alerts :: "real \<Rightarrow> security_data \<Rightarrow> alert_manager \<Rightarrow> pyval \<times> alert_manager" where
  "auto_resolve_alerts now current_metrics m =
     (let (resolved_count, m') = auto_resolve_loop now current_metrics (alerts m) 0 m
      in (PyNone,
          if resolved_count > 0 then m'\<lparr>printed := printed m' @ [AutoResolved resolved_count]\<rparr>
          else m'))"

definition get_active_alerts :: "alert_manager \<Rightarrow> alert list" where
  "get_active_alerts m = filter (\<lambda>a. status a = ''active'') (alerts m)"

definition get_alerts_by_severity :: "alert_manager \<Rightarrow> string \<Rightarrow> alert list" where
  "get_alerts_by_severity m sev = filter (\<lambda>a. severity a = sev) (alerts m)"

definition get_alerts_by_type :: "alert_manager \<Rightarrow> string \<Rightarrow> alert list" where
  "get_alerts_by_type m ty = filter (\<lambda>a. alert_type a = ty) (alerts m)"

text \<open>A counting dict, in insertion order: \<open>c[k] = c.get(k, 0) + 1\<close>.\<close>

fun count_key :: "string \<Rightarrow> (string \<times> nat) list \<Rightarrow> (string \<times> nat) list" where
  "count_key k [] = [(k, 1)]"
| "count_key k ((k', n) # c) = (if k' = k then (k', n + 1) # c else (k', n) # count_key k c)"

definition count_by :: "(alert \<Rightarrow> string) \<Rightarrow> alert list \<Rightarrow> (string \<times> nat) list" where
  "count_by f xs = foldl (\<lambda>c a. count_key (f a) c) [] xs"

record alert_statistics =
  total_alerts :: nat
  active_alerts :: nat
  escalated_alerts :: nat
  by_severity :: "(string \<times> nat) list"
  by_type :: "(string \<times> nat) list"
  by_status :: "(string \<times> nat) list"
  total_history :: nat

text \<open>
  \<open>get_alert_statistics\<close>; every alert dict carries the three keys it reads, so its
  \<open>except\<close> branch has no input.
\<close>

definition get_alert_statistics :: "alert_manager \<Rightarrow> alert_statistics" where
  "get_alert_statistics m =
     \<lparr>total_alerts = length (alerts m),
      active_alerts = length (filter (\<lambda>a. status a = ''active'') (alerts m)),
      escalated_alerts = length (filter (\<lambda>a. status a = ''escalated'') (alerts m)),
      by_severity = count_by severity (alerts m),
      by_type = count_by alert_type (alerts m),
      by_status = count_by status (alerts m),
      total_history = length (alert_history m)\<rparr>"

definition cleanup_old_alerts :: "real \<Rightarrow> int \<Rightarrow> alert_manager \<Rightarrow> alert_manager" where
  "cleanup_old_alerts now days m =
     (let cutoff_date = now - real_of_int days * 86400;
          kept = filter (\<lambda>a. timestamp a > cutoff_date) (alert_history m);
          removed_count = length (alert_history m) - length kept
      in m\<lparr>alert_history := kept,
            printed := (if removed_count > 0 then printed m @ [CleanedUp removed_count]
                        else printed m)\<rparr>)"

text \<open>\<open>sep.join(xs)\<close>.\<close>

fun join :: "string \<Rightarrow> string list \<Rightarrow> string" where
  "join sep [] = []"
| "join sep [x] = x"
| "join sep (x # y # ys) = x @ sep @ join sep (y # ys)"

definition headers :: "string list" where
  "headers =
     [''id'', ''threat_id'', ''timestamp'', ''type'', ''severity'', ''description'', ''source'',
      ''status'', ''details'', ''priority'', ''color'', ''icon'', ''escalation_time'',
      ''auto_resolve'', ''notification_channels'', ''acknowledged'', ''acknowledged_by'',
      ''acknowledged_at'', ''resolved'', ''resolved_at'', ''resolution_notes'']"

text \<open>The string of the last branch of \<open>export_alerts\<close>; \<open>CHR 0x27\<close> is the single quote.\<close>

definition unsupported_format :: string where
  "unsupported_format =
     ''Unsupported format. Use '' @ [CHR 0x27] @ ''json'' @ [CHR 0x27] @ '' or ''
       @ [CHR 0x27] @ ''csv'' @ [CHR 0x27]"

text \<open>
  \<open>export_alerts\<close> reads the manager and assigns nothing, so it returns the string only.
  The library's \<open>json.dumps(_, indent=2, default=str)\<close> is the parameter \<open>json_dumps\<close>,
  and \<open>field_str a h\<close> is the built-in \<open>str(a.get(h, ''))\<close>. The argument is a string,
  on which \<open>.lower()\<close> does not raise.
\<close>

definition export_alerts ::
  "(alert list \<Rightarrow> string) \<Rightarrow> (alert \<Rightarrow> string \<Rightarrow> string) \<Rightarrow> string \<Rightarrow> alert_manager \<Rightarrow> string" where
  "export_alerts json_dumps field_str format m =
     (if lower format = ''json'' then json_dumps (alerts m)
      else if lower format = ''csv'' then
        (if alerts m = [] then ''No alerts to export''
         else join [CHR 0x0A]
                (join '','' headers
                 # map (\<lambda>a. join '','' (map (field_str a) headers)) (alerts m)))
      else unsupported_format)"

text \<open>The managers that a sequence of calls can produce from a new one.\<close>

inductive reachable :: "alert_manager \<Rightarrow> bool" where
  init: "reachable AlertManager_init"
| create: "reachable m \<Longrightarrow> reachable (snd (create_alert now rnd th m))"
| acknowledge: "reachable m \<Longrightarrow> reachable (snd (acknowledge_alert now aid user m))"
| resolve: "reachable m \<Longrightarrow> reachable (snd (resolve_alert now aid user notes m))"
| escalate: "reachable m \<Longrightarrow> reachable (snd (escalate_alert now aid m))"
| auto_resolve: "reachable m \<Longrightarrow> reachable (snd (auto_resolve_alerts now cm m))"
| cleanup: "reachable m \<Longrightarrow> reachable (cleanup_old_alerts now days m)"

section \<open>Inputs of the scenarios\<close>

definition snapshot_with_cpu :: "int \<Rightarrow> system_data" where
  "snapshot_with_cpu c =
     \<lparr>cpu_usage_percent = Some c, memory_usage_percent = Some 50, disk_usage_percent = Some 50,
      processes_total_count = Some 100\<rparr>"

definition rising_cpu_data :: security_data where
  "rising_cpu_data =
     \<lparr>system_metrics = [snapshot_with_cpu 40, snapshot_with_cpu 50, snapshot_with_cpu 75],
      network_traffic = [], security_events = []\<rparr>"

text \<open>The Threat that the trend check builds from the CPU readings 40, 50, 75.\<close>

definition rapid_cpu_increase :: "real \<Rightarrow> threat" where
  "rapid_cpu_increase now =
     mk_threat now ''rapid_cpu_increase'' ''resource_abuse'' ''medium''
       ''Rapid CPU usage increase detected'' ''pattern_analyzer''
       [(''cpu_trend'', Nums [40, 50, 75]), (''increase'', Num 35)]"

definition cpu_data :: "int \<Rightarrow> security_data" where
  "cpu_data c = \<lparr>system_metrics = [snapshot_with_cpu c], network_traffic = [], security_events = []\<rparr>"

definition busy_data :: security_data where
  "busy_data =
     \<lparr>system_metrics =
        [\<lparr>cpu_usage_percent = Some 20, memory_usage_percent = Some 50, disk_usage_percent = Some 50,
          processes_total_count = Some 600\<rparr>],
      network_traffic = [], security_events = []\<rparr>"

text \<open>
  The state property behind the invariants: an alert of the list is active or escalated and
  not resolved; a copy in the history is as \<open>create_alert\<close> wrote it; a dict that
  \<open>resolve_alert\<close> took out of the list has status \<open>resolved\<close> and its flag set.
\<close>

definition unresolved_state :: "alert_manager \<Rightarrow> bool" where
  "unresolved_state m =
     ((\<forall>a \<in> set (alerts m). (status a = ''active'' \<or> status a = ''escalated'') \<and> \<not> resolved a)
      \<and> (\<forall>a \<in> set (alert_history m). status a = ''active'' \<and> \<not> resolved a)
      \<and> (\<forall>a \<in> set (resolved_alerts m). status a = ''resolved'' \<and> resolved a))"

text \<open>The CPU Threat of a pass at clock 100 over one snapshot with CPU usage 96.\<close>

definition cpu_threat :: threat where
  "cpu_threat = hd (fst (analyze_data 100 50 (cpu_data 96) ThreatDetector_init))"

definition one_alert :: alert_manager where
  "one_alert = snd (create_alert 100 1234 cpu_threat AlertManager_init)"

definition one_alert_id :: string where
  "one_alert_id = alert_id (fst (create_alert 100 1234 cpu_threat AlertManager_init))"

text \<open>
  The alerts that the loop of \<open>auto_resolve_alerts\<close> sends to \<open>resolve_alert\<close>: flagged
  for auto-resolution, of one of the two types, and with the check of that type passing.
\<close>

definition auto_resolvable :: "security_data \<Rightarrow> alert \<Rightarrow> bool" where
  "auto_resolvable cm a =
     (auto_resolve a \<and>
      (if alert_type a = ''resource_abuse'' then check_resource_resolution a cm
       else if alert_type a = ''network_anomaly'' then check_network_resolution a cm
       else False))"

text \<open>
  Comparison of a string with a lowercase ASCII word without regard to case, as the spec
  words the format test: each character is the letter itself or its capital, which lies 32
  code points below.
\<close>

definition either_case :: "char \<Rightarrow> char \<Rightarrow> bool" where
  "either_case c l = (c = l \<or> (of_char c :: nat) + 32 = of_char l)"

definition equals_ignoring_case :: "string \<Rightarrow> string \<Rightarrow> bool" where
  "equals_ignoring_case s t = list_all2 either_case s t"

definition ascii_lowercase :: "char \<Rightarrow> bool" where
  "ascii_lowercase l = (97 \<le> (of_char l :: nat) \<and> (of_char l :: nat) \<le> 122)"

text \<open>
  A manager after create, resolve and another create: one dict resolved and out of the
  list, one active alert, two copies in the history.
\<close>

definition after_resolve :: alert_manager where
  "after_resolve =
     snd (create_alert 180 5678 cpu_threat (snd (resolve_alert 170 one_alert_id ''admin'' None one_alert)))"








section \<open>Evaluation of the built-ins\<close>

lemma digits_small: "n < 10 \<Longrightarrow> digits n = [digit_char n]"
  by (simp add: digits.simps)

lemma digits_big: "\<not> n < 10 \<Longrightarrow> digits n = digits (n div 10) @ [digit_char (n mod 10)]"
  by (subst digits.simps) simp

lemmas str_int_eval = str_int_def digits_small digits_big digit_char_def

section \<open>The Threats of one pass\<close>

lemma fst_analyze_data:
  "fst (analyze_data now r sdata d) =
     (if system_metrics sdata \<noteq> []
      then cpu_check now (last (system_metrics sdata)) @ memory_check now (last (system_metrics sdata))
           @ disk_check now (last (system_metrics sdata))
           @ fst (process_check now (last (system_metrics sdata)) d)
      else [])
     @ (if network_traffic sdata \<noteq> [] then analyze_network_traffic now (last (network_traffic sdata)) else [])
     @ (if security_events sdata \<noteq> [] then analyze_security_events now (security_events sdata) else [])
     @ analyze_patterns now sdata"
  by (simp add: analyze_data_def analyze_system_metrics_def Let_def split_beta)

lemma tot_append: "threats_of_type ty (xs @ ys) = threats_of_type ty xs @ threats_of_type ty ys"
  by (simp add: threats_of_type_def)

lemma tot_Nil: "threats_of_type ty [] = []"
  by (simp add: threats_of_type_def)

lemma tot_mk:
  "threats_of_type ty [mk_threat now name ty' sev descr src det] =
     (if ty' = ty then [mk_threat now name ty' sev descr src det] else [])"
  by (simp add: threats_of_type_def mk_threat_def)

lemma tot_process:
  "ty \<noteq> ''suspicious_process'' \<Longrightarrow> threats_of_type ty (fst (process_check now sd d)) = []"
  by (simp add: process_check_def tot_mk tot_Nil split: prod.splits bool.splits)

lemma resource_abuse_elsewhere:
  "threats_of_type ''resource_abuse'' (analyze_network_traffic now nd) = []"
  "threats_of_type ''resource_abuse'' (analyze_security_events now evs) = []"
  "threats_of_type ''resource_abuse'' (network_spike_check now sdata) = []"
  by (simp_all add: analyze_network_traffic_def analyze_security_events_def network_spike_check_def
      Let_def tot_append tot_Nil tot_mk)

lemma brute_force_elsewhere:
  "threats_of_type ''brute_force'' (cpu_check now sd) = []"
  "threats_of_type ''brute_force'' (memory_check now sd) = []"
  "threats_of_type ''brute_force'' (disk_check now sd) = []"
  "threats_of_type ''brute_force'' (analyze_network_traffic now nd) = []"
  "threats_of_type ''brute_force'' (analyze_patterns now sdata) = []"
  by (simp_all add: cpu_check_def memory_check_def disk_check_def analyze_network_traffic_def
      analyze_patterns_def cpu_trend_check_def network_spike_check_def
      Let_def tot_append tot_Nil tot_mk)

lemma brute_force_events:
  "length (filter is_failed_login evs) < failed_logins_threshold \<Longrightarrow>
   threats_of_type ''brute_force'' (analyze_security_events now evs) = []"
  by (simp add: analyze_security_events_def Let_def tot_append tot_Nil tot_mk)

lemma suspicious_elsewhere:
  "threats_of_type ''suspicious_process'' (cpu_check now sd) = []"
  "threats_of_type ''suspicious_process'' (memory_check now sd) = []"
  "threats_of_type ''suspicious_process'' (disk_check now sd) = []"
  "threats_of_type ''suspicious_process'' (analyze_network_traffic now nd) = []"
  "threats_of_type ''suspicious_process'' (analyze_security_events now evs) = []"
  "threats_of_type ''suspicious_process'' (analyze_patterns now sdata) = []"
  by (simp_all add: cpu_check_def memory_check_def disk_check_def analyze_network_traffic_def
      analyze_security_events_def analyze_patterns_def cpu_trend_check_def network_spike_check_def
      Let_def tot_append tot_Nil tot_mk)

lemma suspicious_process_check:
  "threats_of_type ''suspicious_process'' (fst (process_check now sd d)) = fst (process_check now sd d)"
  by (simp add: process_check_def tot_mk tot_Nil split: prod.splits bool.splits)

lemma length_process_check:
  "length (fst (process_check now sd d)) =
     (if get0 (processes_total_count sd) > 500 \<and> fst (should_send_alert now ''process_anomaly'' d)
      then 1 else 0)"
  by (auto simp add: process_check_def split: prod.splits bool.splits)

lemma process_check_Nil:
  "(fst (process_check now sd d) = []) =
     (\<not> (get0 (processes_total_count sd) > 500 \<and> fst (should_send_alert now ''process_anomaly'' d)))"
  by (auto simp add: process_check_def split: prod.splits bool.splits)

lemma snd_process_check:
  "snd (process_check now sd d) =
     (if get0 (processes_total_count sd) > 500 then snd (should_send_alert now ''process_anomaly'' d)
      else d)"
  by (auto simp add: process_check_def split: prod.splits bool.splits)

lemma suspicious_analyze_data:
  "length (threats_of_type ''suspicious_process'' (fst (analyze_data now r sdata d))) =
     (if system_metrics sdata \<noteq> [] \<and> get0 (processes_total_count (last (system_metrics sdata))) > 500
         \<and> fst (should_send_alert now ''process_anomaly'' d) then 1 else 0)"
  by (simp add: fst_analyze_data tot_append tot_Nil suspicious_elsewhere suspicious_process_check
      length_process_check process_check_Nil)

lemma last_alert_time_analyze_data:
  "last_alert_time (snd (analyze_data now r sdata d)) =
     (if system_metrics sdata \<noteq> [] \<and> get0 (processes_total_count (last (system_metrics sdata))) > 500
      then last_alert_time (snd (should_send_alert now ''process_anomaly'' d))
      else last_alert_time d)"
  by (simp add: analyze_data_def analyze_system_metrics_def Let_def split_beta snd_process_check)

text \<open>
  C3, as the code has it. The trend Threat is itself of type \<open>resource_abuse\<close>. On a
  history of three system snapshots with CPU usage 40, 50 and 75, whose last snapshot
  breaches neither the memory nor the disk threshold, and with fewer than five failed-login
  events, \<open>analyze_data\<close> yields exactly one Threat of type \<open>resource_abuse\<close>, the
  rapid-increase Threat of the pattern analyzer (so none from a threshold breach), and no
  \<open>brute_force\<close> Threat.
\<close>

theorem rising_cpu_scenario:
  assumes cpu: "map cpu_usage_percent (system_metrics sdata) = [Some 40, Some 50, Some 75]"
    and mem: "get0 (memory_usage_percent (last (system_metrics sdata))) \<le> memory_threshold"
    and disk: "get0 (disk_usage_percent (last (system_metrics sdata))) \<le> disk_threshold"
    and logins: "length (filter is_failed_login (security_events sdata)) < failed_logins_threshold"
  shows "threats_of_type ''resource_abuse'' (fst (analyze_data now r sdata d)) = [rapid_cpu_increase now]
       \<and> threats_of_type ''brute_force'' (fst (analyze_data now r sdata d)) = []"
proof -
  from cpu obtain s1 s2 s3 where sm: "system_metrics sdata = [s1, s2, s3]"
    and c: "cpu_usage_percent s1 = Some 40" "cpu_usage_percent s2 = Some 50"
      "cpu_usage_percent s3 = Some 75"
    by (auto simp add: map_eq_Cons_conv)
  have trend: "cpu_trend_check now sdata = [rapid_cpu_increase now]"
    by (simp add: cpu_trend_check_def sm c last_n_def get0_def rapid_cpu_increase_def)
  have nocpu: "cpu_check now s3 = []"
    by (simp add: cpu_check_def c get0_def cpu_threshold_def)
  have nomem: "memory_check now s3 = []"
    using mem by (simp add: memory_check_def sm)
  have nodisk: "disk_check now s3 = []"
    using disk by (simp add: disk_check_def sm)
  have ra: "threats_of_type ''resource_abuse'' [rapid_cpu_increase now] = [rapid_cpu_increase now]"
    by (simp add: rapid_cpu_increase_def tot_mk)
  have pat: "threats_of_type ''resource_abuse'' (analyze_patterns now sdata) = [rapid_cpu_increase now]"
    unfolding analyze_patterns_def tot_append by (simp add: trend ra resource_abuse_elsewhere)
  have 1: "threats_of_type ''resource_abuse'' (fst (analyze_data now r sdata d))
             = [rapid_cpu_increase now]"
    by (simp add: fst_analyze_data sm nocpu nomem nodisk tot_append tot_Nil tot_process
        resource_abuse_elsewhere pat)
  have 2: "threats_of_type ''brute_force'' (fst (analyze_data now r sdata d)) = []"
    using logins
    by (simp add: fst_analyze_data tot_append tot_Nil tot_process brute_force_elsewhere
        brute_force_events)
  from 1 2 show ?thesis by simp
qed

lemma rising_cpu_data_hyps:
  "map cpu_usage_percent (system_metrics rising_cpu_data) = [Some 40, Some 50, Some 75]"
  "get0 (memory_usage_percent (last (system_metrics rising_cpu_data))) \<le> memory_threshold"
  "get0 (disk_usage_percent (last (system_metrics rising_cpu_data))) \<le> disk_threshold"
  "length (filter is_failed_login (security_events rising_cpu_data)) < failed_logins_threshold"
  by (simp_all add: rising_cpu_data_def snapshot_with_cpu_def get0_def memory_threshold_def
      disk_threshold_def failed_logins_threshold_def)

theorem rising_cpu_scenario_witness:
  "map cpu_usage_percent (system_metrics rising_cpu_data) = [Some 40, Some 50, Some 75]
   \<and> get0 (memory_usage_percent (last (system_metrics rising_cpu_data))) \<le> memory_threshold
   \<and> get0 (disk_usage_percent (last (system_metrics rising_cpu_data))) \<le> disk_threshold
   \<and> length (filter is_failed_login (security_events rising_cpu_data)) < failed_logins_threshold
   \<and> threats_of_type ''resource_abuse'' (fst (analyze_data 100 50 rising_cpu_data ThreatDetector_init))
       = [rapid_cpu_increase 100]
   \<and> threats_of_type ''brute_force'' (fst (analyze_data 100 50 rising_cpu_data ThreatDetector_init)) = []"
  using rising_cpu_scenario[OF rising_cpu_data_hyps, of 100 50 ThreatDetector_init]
    rising_cpu_data_hyps
  by simp

text \<open>
  C3 as the spec states it fails on the scenario itself: the pass returns the single trend
  Threat, and that Threat counts among those of type \<open>resource_abuse\<close>.
\<close>

theorem rising_cpu_counterexample:
  "\<not> (length (threats_of_type ''resource_abuse''
                (fst (analyze_data 100 50 rising_cpu_data ThreatDetector_init))) = 0
      \<and> length (threats_of_source ''pattern_analyzer''
                (fst (analyze_data 100 50 rising_cpu_data ThreatDetector_init))) = 1
      \<and> length (threats_of_type ''brute_force''
                (fst (analyze_data 100 50 rising_cpu_data ThreatDetector_init))) = 0)"
proof -
  have "fst (analyze_data 100 50 rising_cpu_data ThreatDetector_init) = [rapid_cpu_increase 100]"
    by (simp add: fst_analyze_data rising_cpu_data_def snapshot_with_cpu_def cpu_check_def
        memory_check_def disk_check_def process_check_def get0_def cpu_threshold_def
        memory_threshold_def disk_threshold_def analyze_patterns_def cpu_trend_check_def
        network_spike_check_def last_n_def rapid_cpu_increase_def)
  then show ?thesis
    by (simp add: rapid_cpu_increase_def tot_mk)
qed

section \<open>Threat identifiers\<close>

lemma ids_single:
  "\<exists>ns. subseq ns [name] \<and>
        map t_id (if b then [mk_threat now name ty sev descr src det] else [])
          = map (\<lambda>n. Some (threat_identifier now n)) ns"
proof (cases b)
  case True
  then show ?thesis by (intro exI[of _ "[name]"]) (simp add: mk_threat_def)
next
  case False
  then show ?thesis by (intro exI[of _ "[]"]) simp
qed

lemma ids_append:
  assumes "\<exists>ns. subseq ns A \<and> map t_id xs = map f ns"
    and "\<exists>ns. subseq ns B \<and> map t_id ys = map f ns"
  shows "\<exists>ns. subseq ns (A @ B) \<and> map t_id (xs @ ys) = map f ns"
proof -
  from assms obtain ns ms where "subseq ns A" "map t_id xs = map f ns"
    "subseq ms B" "map t_id ys = map f ms" by blast
  then have "subseq (ns @ ms) (A @ B) \<and> map t_id (xs @ ys) = map f (ns @ ms)"
    by (simp add: list_emb_append_mono)
  then show ?thesis by blast
qed

lemma ids_empty: "\<exists>ns. subseq ns A \<and> map t_id [] = map f ns"
  by (intro exI[of _ "[]"]) simp

lemma ids_process:
  "\<exists>ns. subseq ns [''process_anomaly''] \<and>
        map t_id (fst (process_check now sd d)) = map (\<lambda>n. Some (threat_identifier now n)) ns"
proof (cases "fst (process_check now sd d) = []")
  case True
  then show ?thesis by (intro exI[of _ "[]"]) simp
next
  case False
  then show ?thesis
    by (intro exI[of _ "[''process_anomaly'']"])
       (auto simp add: process_check_def mk_threat_def split: if_splits prod.splits bool.splits)
qed

lemma ids_system:
  "\<exists>ns. subseq ns [''cpu_abuse'', ''memory_abuse'', ''disk_abuse'', ''process_anomaly''] \<and>
        map t_id (fst (analyze_system_metrics now sd d))
          = map (\<lambda>n. Some (threat_identifier now n)) ns"
proof -
  have "\<exists>ns. subseq ns ([''cpu_abuse''] @ [''memory_abuse''] @ [''disk_abuse'']
                          @ [''process_anomaly'']) \<and>
        map t_id (cpu_check now sd @ memory_check now sd @ disk_check now sd
                  @ fst (process_check now sd d))
          = map (\<lambda>n. Some (threat_identifier now n)) ns"
    unfolding cpu_check_def memory_check_def disk_check_def
    by (intro ids_append ids_single ids_process)
  then show ?thesis
    by (simp add: analyze_system_metrics_def split_beta)
qed

lemma ids_network:
  "\<exists>ns. subseq ns [''network_anomaly'', ''port_scan'', ''network_errors''] \<and>
        map t_id (analyze_network_traffic now nd) = map (\<lambda>n. Some (threat_identifier now n)) ns"
proof -
  have "\<exists>ns. subseq ns ([''network_anomaly''] @ [''port_scan''] @ [''network_errors'']) \<and>
        map t_id (analyze_network_traffic now nd) = map (\<lambda>n. Some (threat_identifier now n)) ns"
    unfolding analyze_network_traffic_def
    by (intro ids_append ids_single)
  then show ?thesis by simp
qed

lemma ids_events:
  "\<exists>ns. subseq ns [''high_severity_events'', ''brute_force''] \<and>
        map t_id (analyze_security_events now evs) = map (\<lambda>n. Some (threat_identifier now n)) ns"
proof -
  have "\<exists>ns. subseq ns ([''high_severity_events''] @ [''brute_force'']) \<and>
        map t_id (analyze_security_events now evs) = map (\<lambda>n. Some (threat_identifier now n)) ns"
    unfolding analyze_security_events_def Let_def
    by (intro ids_append ids_single)
  then show ?thesis by simp
qed

lemma ids_trend:
  "\<exists>ns. subseq ns [''rapid_cpu_increase''] \<and>
        map t_id (cpu_trend_check now sdata) = map (\<lambda>n. Some (threat_identifier now n)) ns"
proof (cases "cpu_trend_check now sdata = []")
  case True
  then show ?thesis by (intro exI[of _ "[]"]) simp
next
  case False
  then show ?thesis
    by (intro exI[of _ "[''rapid_cpu_increase'']"])
       (auto simp add: cpu_trend_check_def mk_threat_def Let_def split: if_splits)
qed

lemma ids_spike:
  "\<exists>ns. subseq ns [''network_spike''] \<and>
        map t_id (network_spike_check now sdata) = map (\<lambda>n. Some (threat_identifier now n)) ns"
proof (cases "network_spike_check now sdata = []")
  case True
  then show ?thesis by (intro exI[of _ "[]"]) simp
next
  case False
  then show ?thesis
    by (intro exI[of _ "[''network_spike'']"])
       (auto simp add: network_spike_check_def mk_threat_def Let_def split: if_splits)
qed

lemma ids_analyze_data:
  "\<exists>ns. subseq ns check_names \<and>
        map t_id (fst (analyze_data now r sdata d)) = map (\<lambda>n. Some (threat_identifier now n)) ns"
proof -
  let ?f = "\<lambda>n. Some (threat_identifier now n)"
  let ?sys = "if system_metrics sdata \<noteq> []
              then fst (analyze_system_metrics now (last (system_metrics sdata)) d) else []"
  let ?net = "if network_traffic sdata \<noteq> []
              then analyze_network_traffic now (last (network_traffic sdata)) else []"
  let ?evs = "if security_events sdata \<noteq> []
              then analyze_security_events now (security_events sdata) else []"
  have 1: "\<exists>ns. subseq ns [''cpu_abuse'', ''memory_abuse'', ''disk_abuse'', ''process_anomaly''] \<and>
        map t_id ?sys = map ?f ns"
    using ids_system ids_empty by (cases "system_metrics sdata \<noteq> []") simp_all
  have 2: "\<exists>ns. subseq ns [''network_anomaly'', ''port_scan'', ''network_errors''] \<and>
        map t_id ?net = map ?f ns"
    using ids_network ids_empty by (cases "network_traffic sdata \<noteq> []") simp_all
  have 3: "\<exists>ns. subseq ns [''high_severity_events'', ''brute_force''] \<and>
        map t_id ?evs = map ?f ns"
    using ids_events ids_empty by (cases "security_events sdata \<noteq> []") simp_all
  have "\<exists>ns. subseq ns ([''cpu_abuse'', ''memory_abuse'', ''disk_abuse'', ''process_anomaly'']
           @ [''network_anomaly'', ''port_scan'', ''network_errors'']
           @ [''high_severity_events'', ''brute_force''] @ [''rapid_cpu_increase'']
           @ [''network_spike''])
        \<and> map t_id (?sys @ ?net @ ?evs @ cpu_trend_check now sdata @ network_spike_check now sdata)
            = map ?f ns"
    by (intro ids_append 1 2 3 ids_trend ids_spike)
  moreover have "fst (analyze_data now r sdata d)
      = ?sys @ ?net @ ?evs @ cpu_trend_check now sdata @ network_spike_check now sdata"
    by (simp add: analyze_data_def analyze_patterns_def Let_def split_beta)
  ultimately show ?thesis by (simp add: check_names_def)
qed

lemma subseq_set_subset: "subseq xs ys \<Longrightarrow> set xs \<subseteq> set ys"
  by (induction rule: list_emb.induct) auto

lemma subseq_distinct: "subseq xs ys \<Longrightarrow> distinct ys \<Longrightarrow> distinct xs"
proof (induction rule: list_emb.induct)
  case (list_emb_Cons2 x y xs ys)
  then show ?case using subseq_set_subset[of xs ys] by auto
qed auto

text \<open>
  C4, as the code has it. The identifier of every Threat of a pass is the name of the check
  that raised it, an underscore and the integer second of the clock; nothing random enters
  it. The Threats of one pass receive pairwise distinct identifiers.
\<close>

theorem threat_identifiers:
  "(\<forall>th \<in> set (fst (analyze_data now r sdata d)).
       \<exists>name \<in> set check_names. t_id th = Some (threat_identifier now name))
   \<and> distinct (map t_id (fst (analyze_data now r sdata d)))"
proof -
  let ?f = "\<lambda>n. Some (threat_identifier now n)"
  obtain ns where ns: "subseq ns check_names"
    and ids: "map t_id (fst (analyze_data now r sdata d)) = map ?f ns"
    using ids_analyze_data by blast
  have "distinct check_names" by (simp add: check_names_def)
  with ns have "distinct ns" by (rule subseq_distinct)
  moreover have "inj ?f" by (simp add: inj_on_def threat_identifier_def)
  ultimately have d: "distinct (map ?f ns)"
    by (simp add: distinct_map inj_on_def)
  have sub: "set ns \<subseteq> set check_names" using ns by (rule subseq_set_subset)
  have "\<exists>name \<in> set check_names. t_id th = ?f name"
    if "th \<in> set (fst (analyze_data now r sdata d))" for th
  proof -
    from that have "t_id th \<in> set (map t_id (fst (analyze_data now r sdata d)))" by simp
    then have "t_id th \<in> ?f ` set ns" by (simp add: ids)
    with sub show ?thesis by blast
  qed
  with d ids show ?thesis by simp
qed

lemma analyze_cpu_data:
  "95 < c \<Longrightarrow> map t_id (fst (analyze_data now r (cpu_data c) d)) = [Some (threat_identifier now ''cpu_abuse'')]"
  by (simp add: fst_analyze_data cpu_data_def snapshot_with_cpu_def cpu_check_def memory_check_def
      disk_check_def process_check_def get0_def cpu_threshold_def memory_threshold_def
      disk_threshold_def analyze_patterns_def cpu_trend_check_def network_spike_check_def
      mk_threat_def)

theorem threat_identifiers_witness:
  "fst (analyze_data 100 50 (cpu_data 96) ThreatDetector_init) \<noteq> []
   \<and> ''cpu_abuse'' \<in> set check_names
   \<and> t_id (hd (fst (analyze_data 100 50 (cpu_data 96) ThreatDetector_init)))
       = Some (threat_identifier 100 ''cpu_abuse'')
   \<and> distinct (map t_id (fst (analyze_data 100 50 (cpu_data 96) ThreatDetector_init)))"
proof -
  have m: "map t_id (fst (analyze_data 100 50 (cpu_data 96) ThreatDetector_init))
             = [Some (threat_identifier 100 ''cpu_abuse'')]"
    by (simp add: analyze_cpu_data)
  then have ne: "fst (analyze_data 100 50 (cpu_data 96) ThreatDetector_init) \<noteq> []" by auto
  with m have "t_id (hd (fst (analyze_data 100 50 (cpu_data 96) ThreatDetector_init)))
       = Some (threat_identifier 100 ''cpu_abuse'')"
    by (cases "fst (analyze_data 100 50 (cpu_data 96) ThreatDetector_init)") simp_all
  with ne threat_identifiers[of 100 50 "cpu_data 96" ThreatDetector_init]
  show ?thesis by (simp add: check_names_def)
qed

text \<open>
  C4 as the spec states it fails: two passes in the same second (clock 100.2, then 100.7)
  over a snapshot with CPU usage 96 each raise a CPU Threat, and both Threats carry the
  identifier \<open>cpu_abuse_100\<close>.
\<close>

theorem threat_identifier_collision:
  "map t_id (fst (analyze_data 100.2 50 (cpu_data 96) ThreatDetector_init)
             @ fst (analyze_data 100.7 120 (cpu_data 96)
                      (snd (analyze_data 100.2 50 (cpu_data 96) ThreatDetector_init))))
     = [Some ''cpu_abuse_100'', Some ''cpu_abuse_100'']
   \<and> \<not> distinct (map t_id (fst (analyze_data 100.2 50 (cpu_data 96) ThreatDetector_init)
                            @ fst (analyze_data 100.7 120 (cpu_data 96)
                                (snd (analyze_data 100.2 50 (cpu_data 96) ThreatDetector_init)))))"
  by (simp add: analyze_cpu_data threat_identifier_def str_int_eval)

section \<open>Cooldown\<close>

text \<open>
  C5. Two consecutive passes whose latest snapshots both report more than 500 processes,
  the second less than the cooldown of 60 seconds after the first, yield at most one
  \<open>suspicious_process\<close> Threat between them, whatever the detector's state before.
\<close>

theorem cooldown_at_most_one:
  assumes "system_metrics d1 \<noteq> []"
    and "get0 (processes_total_count (last (system_metrics d1))) > 500"
    and "system_metrics d2 \<noteq> []"
    and "get0 (processes_total_count (last (system_metrics d2))) > 500"
    and "t2 - t1 < alert_cooldown"
  shows "length (threats_of_type ''suspicious_process'' (fst (analyze_data t1 r1 d1 det)))
       + length (threats_of_type ''suspicious_process''
                  (fst (analyze_data t2 r2 d2 (snd (analyze_data t1 r1 d1 det))))) \<le> 1"
proof -
  let ?det' = "snd (analyze_data t1 r1 d1 det)"
  have lat: "last_alert_time ?det'
               = last_alert_time (snd (should_send_alert t1 ''process_anomaly'' det))"
    using assms(1,2) by (simp add: last_alert_time_analyze_data)
  have "fst (should_send_alert t1 ''process_anomaly'' det) \<Longrightarrow>
        \<not> fst (should_send_alert t2 ''process_anomaly'' ?det')"
    using assms(5) by (auto simp add: should_send_alert_def lat split: option.splits if_splits)
  then show ?thesis
    by (simp add: suspicious_analyze_data assms)
qed

lemma busy_data_hyps:
  "system_metrics busy_data \<noteq> []"
  "get0 (processes_total_count (last (system_metrics busy_data))) > 500"
  by (simp_all add: busy_data_def get0_def)

theorem cooldown_at_most_one_witness:
  "system_metrics busy_data \<noteq> []
   \<and> get0 (processes_total_count (last (system_metrics busy_data))) > 500
   \<and> (130::real) - 100 < alert_cooldown
   \<and> length (threats_of_type ''suspicious_process''
               (fst (analyze_data 100 50 busy_data ThreatDetector_init))) = 1
   \<and> length (threats_of_type ''suspicious_process''
               (fst (analyze_data 100 50 busy_data ThreatDetector_init)))
     + length (threats_of_type ''suspicious_process''
                 (fst (analyze_data 130 60 busy_data
                         (snd (analyze_data 100 50 busy_data ThreatDetector_init))))) \<le> 1"
proof -
  have c: "(130::real) - 100 < alert_cooldown" by (simp add: alert_cooldown_def)
  have one: "length (threats_of_type ''suspicious_process''
               (fst (analyze_data 100 50 busy_data ThreatDetector_init))) = 1"
    by (simp add: suspicious_analyze_data busy_data_hyps should_send_alert_def
        ThreatDetector_init_def)
  from cooldown_at_most_one[OF busy_data_hyps busy_data_hyps c, of 50 ThreatDetector_init 60]
    busy_data_hyps c one
  show ?thesis by simp
qed

section \<open>Finding and removing an alert\<close>

lemma find_alert_Some:
  "find_alert xs aid = Some i \<Longrightarrow>
     i < length xs \<and> alert_id (xs ! i) = aid \<and> (\<forall>j < i. alert_id (xs ! j) \<noteq> aid)"
proof (induction xs arbitrary: i)
  case Nil
  then show ?case by simp
next
  case (Cons x xs)
  show ?case
  proof (cases "alert_id x = aid")
    case True
    with Cons.prems show ?thesis by simp
  next
    case False
    with Cons.prems obtain k where k: "find_alert xs aid = Some k" "i = Suc k" by auto
    from Cons.IH[OF k(1)] False k(2) show ?thesis
      by (auto simp add: less_Suc_eq_0_disj)
  qed
qed

lemma find_alert_None: "(find_alert xs aid = None) = (aid \<notin> alert_id ` set xs)"
  by (induction xs) auto

lemma find_alert_update_same_id:
  "find_alert xs aid = Some i \<Longrightarrow> alert_id a = alert_id (xs ! i) \<Longrightarrow>
     find_alert (xs[i := a]) aid = Some i"
proof (induction xs arbitrary: i)
  case Nil
  then show ?case by simp
next
  case (Cons x xs)
  then show ?case by (cases i) (auto split: if_splits)
qed

lemma remove_found:
  "find_alert xs aid = Some i \<Longrightarrow> alert_id a = aid \<Longrightarrow>
     remove1 a (xs[i := a]) = take i xs @ drop (Suc i) xs"
proof (induction xs arbitrary: i)
  case Nil
  then show ?case by simp
next
  case (Cons x xs)
  then show ?case by (cases i) (auto split: if_splits)
qed

lemma alerts_resolve_alert:
  "find_alert (alerts m) aid = Some i \<Longrightarrow>
     alerts (snd (resolve_alert now aid user notes m)) = take i (alerts m) @ drop (Suc i) (alerts m)"
  using find_alert_Some[of "alerts m" aid i]
  by (simp add: resolve_alert_def Let_def remove_found)

lemma alerts_resolve_alert_None:
  "find_alert (alerts m) aid = None \<Longrightarrow> snd (resolve_alert now aid user notes m) = m"
  by (simp add: resolve_alert_def)

lemma history_resolve_alert:
  "alert_history (snd (resolve_alert now aid user notes m)) = alert_history m"
  by (simp add: resolve_alert_def Let_def split: option.splits)

lemma set_resolve_alert_subset:
  "set (alerts (snd (resolve_alert now aid user notes m))) \<subseteq> set (alerts m)"
proof (cases "find_alert (alerts m) aid")
  case None
  then show ?thesis by (simp add: alerts_resolve_alert_None)
next
  case (Some i)
  then show ?thesis
    by (auto simp add: alerts_resolve_alert dest: in_set_takeD in_set_dropD)
qed

section \<open>The invariant of the manager\<close>

lemma unresolved_init: "unresolved_state AlertManager_init"
  by (simp add: unresolved_state_def AlertManager_init_def)

lemma unresolved_create: "unresolved_state m \<Longrightarrow> unresolved_state (snd (create_alert now rnd th m))"
  by (auto simp add: unresolved_state_def create_alert_def Let_def last_n_def dest: in_set_dropD)

lemma unresolved_acknowledge:
  "unresolved_state m \<Longrightarrow> unresolved_state (snd (acknowledge_alert now aid user m))"
proof (cases "find_alert (alerts m) aid")
  case None
  assume "unresolved_state m"
  with None show ?thesis by (simp add: acknowledge_alert_def)
next
  case (Some i)
  assume u: "unresolved_state m"
  from find_alert_Some[OF Some] have "alerts m ! i \<in> set (alerts m)" by simp
  with u Some show ?thesis
    by (auto simp add: unresolved_state_def acknowledge_alert_def dest!: set_update_subset_insert[THEN subsetD])
qed

lemma resolved_alerts_resolve_alert:
  "resolved_alerts (snd (resolve_alert now aid user notes m)) =
     (case find_alert (alerts m) aid of
        None \<Rightarrow> resolved_alerts m
      | Some i \<Rightarrow> resolved_alerts m @
          [(alerts m ! i)\<lparr>status := ''resolved'', resolved := True, resolved_at := Some now,
                           resolution_notes := notes\<rparr>])"
  by (simp add: resolve_alert_def Let_def split: option.splits)

lemma unresolved_resolve:
  assumes "unresolved_state m"
  shows "unresolved_state (snd (resolve_alert now aid user notes m))"
proof -
  let ?m' = "snd (resolve_alert now aid user notes m)"
  have 1: "\<forall>a \<in> set (alerts ?m'). (status a = ''active'' \<or> status a = ''escalated'') \<and> \<not> resolved a"
    using set_resolve_alert_subset[of now aid user "notes" m] assms
    unfolding unresolved_state_def by blast
  have 2: "\<forall>a \<in> set (alert_history ?m'). status a = ''active'' \<and> \<not> resolved a"
    using assms unfolding unresolved_state_def by (simp add: history_resolve_alert)
  have 3: "\<forall>a \<in> set (resolved_alerts ?m'). status a = ''resolved'' \<and> resolved a"
    using assms unfolding unresolved_state_def
    by (auto simp add: resolved_alerts_resolve_alert split: option.splits)
  from 1 2 3 show ?thesis unfolding unresolved_state_def by blast
qed

lemma unresolved_escalate:
  "unresolved_state m \<Longrightarrow> unresolved_state (snd (escalate_alert now aid m))"
proof (cases "find_alert (alerts m) aid")
  case None
  assume "unresolved_state m"
  with None show ?thesis by (simp add: escalate_alert_def)
next
  case (Some i)
  assume u: "unresolved_state m"
  from find_alert_Some[OF Some] have "alerts m ! i \<in> set (alerts m)" by simp
  with u Some show ?thesis
    by (auto simp add: unresolved_state_def escalate_alert_def dest!: set_update_subset_insert[THEN subsetD])
qed

lemma unresolved_loop:
  "unresolved_state m \<Longrightarrow> unresolved_state (snd (auto_resolve_loop now cm xs n m))"
  by (induction xs arbitrary: n m) (simp_all add: unresolved_resolve)

lemma unresolved_printed: "unresolved_state (m\<lparr>printed := p\<rparr>) = unresolved_state m"
  by (simp add: unresolved_state_def)

lemma unresolved_auto_resolve:
  "unresolved_state m \<Longrightarrow> unresolved_state (snd (auto_resolve_alerts now cm m))"
  using unresolved_loop[of m now cm "alerts m" 0]
  by (simp add: auto_resolve_alerts_def split_beta unresolved_printed)

lemma unresolved_cleanup:
  "unresolved_state m \<Longrightarrow> unresolved_state (cleanup_old_alerts now days m)"
  by (simp add: unresolved_state_def cleanup_old_alerts_def Let_def)

lemma reachable_unresolved: "reachable m \<Longrightarrow> unresolved_state m"
  by (induction rule: reachable.induct)
     (simp_all add: unresolved_init unresolved_create unresolved_acknowledge unresolved_resolve
        unresolved_escalate unresolved_auto_resolve unresolved_cleanup)

section \<open>The alert of the scenarios\<close>

lemma analyze_cpu_data_threat:
  "95 < c \<Longrightarrow> fst (analyze_data now r (cpu_data c) d) =
     [mk_threat now ''cpu_abuse'' ''resource_abuse'' ''medium''
        (''High CPU usage detected: '' @ str_int c @ ''%'') ''system_monitor''
        [(''cpu_usage'', Num c), (''threshold'', Num 95)]]"
  by (simp add: fst_analyze_data cpu_data_def snapshot_with_cpu_def cpu_check_def memory_check_def
      disk_check_def process_check_def get0_def cpu_threshold_def memory_threshold_def
      disk_threshold_def analyze_patterns_def cpu_trend_check_def network_spike_check_def)

lemma cpu_threat_eq:
  "cpu_threat = mk_threat 100 ''cpu_abuse'' ''resource_abuse'' ''medium''
      ''High CPU usage detected: 96%'' ''system_monitor''
      [(''cpu_usage'', Num 96), (''threshold'', Num 95)]"
  by (simp add: cpu_threat_def analyze_cpu_data_threat str_int_eval)

lemma created_fields:
  "alert_id (fst (create_alert now rnd th m)) = ''alert_'' @ str_int \<lfloor>now\<rfloor> @ ''_'' @ str_int rnd"
  "status (fst (create_alert now rnd th m)) = ''active''"
  "resolved (fst (create_alert now rnd th m)) = False"
  "acknowledged (fst (create_alert now rnd th m)) = False"
  "description (fst (create_alert now rnd th m)) = get_or ''Unknown threat detected'' (t_description th)"
  "alert_type (fst (create_alert now rnd th m)) = get_or ''unknown'' (t_type th)"
  "auto_resolve (fst (create_alert now rnd th m))
     = get_or False (map_option rule_auto_resolve (alert_rules (get_or ''unknown'' (t_type th))))"
  by (simp_all add: create_alert_def Let_def)

lemma one_alert_alerts:
  "alerts one_alert = [fst (create_alert 100 1234 cpu_threat AlertManager_init)]"
  "alert_history one_alert = [fst (create_alert 100 1234 cpu_threat AlertManager_init)]"
  by (simp_all add: one_alert_def create_alert_def Let_def AlertManager_init_def)

lemma one_alert_id_eq: "one_alert_id = ''alert_100_1234''"
  by (simp add: one_alert_id_def created_fields str_int_eval)

lemma reachable_one_alert: "reachable one_alert"
  unfolding one_alert_def by (intro reachable.intros)

section \<open>Status and the resolved flag\<close>

lemma alerts_create_alert:
  "alerts (snd (create_alert now rnd th m)) = alerts m @ [fst (create_alert now rnd th m)]"
  by (simp add: create_alert_def Let_def)

lemma resolved_alerts_create_alert:
  "resolved_alerts (snd (create_alert now rnd th m)) = resolved_alerts m"
  by (simp add: create_alert_def Let_def)

lemma reachable_after_resolve: "reachable after_resolve"
  unfolding after_resolve_def by (intro reachable.intros reachable_one_alert)

lemma find_one_alert: "find_alert (alerts one_alert) one_alert_id = Some 0"
  by (simp add: one_alert_alerts one_alert_id_def)

lemma after_resolve_alerts:
  "alerts after_resolve = [fst (create_alert 180 5678 cpu_threat
                             (snd (resolve_alert 170 one_alert_id ''admin'' None one_alert)))]"
  unfolding after_resolve_def alerts_create_alert
  by (simp add: alerts_resolve_alert[OF find_one_alert] one_alert_alerts)

lemma resolved_alerts_one_alert: "resolved_alerts one_alert = []"
  by (simp add: one_alert_def resolved_alerts_create_alert AlertManager_init_def)

lemma after_resolve_resolved:
  "resolved_alerts after_resolve =
     [(fst (create_alert 100 1234 cpu_threat AlertManager_init))
        \<lparr>status := ''resolved'', resolved := True, resolved_at := Some 170, resolution_notes := None\<rparr>]"
  unfolding after_resolve_def resolved_alerts_create_alert resolved_alerts_resolve_alert
    find_one_alert
  by (simp add: resolved_alerts_one_alert one_alert_alerts)

text \<open>
  C6. In every manager that a sequence of create, acknowledge, resolve, escalate,
  auto-resolve (and history clean-up) calls produces, each alert dict has status
  \<open>resolved\<close> exactly when its \<open>resolved\<close> flag is true: the alerts of the list, the
  copies in the history, and the dicts that \<open>resolve_alert\<close> has marked and removed.
\<close>

theorem status_resolved_iff:
  "reachable m \<Longrightarrow>
     \<forall>a \<in> set (alerts m) \<union> set (alert_history m) \<union> set (resolved_alerts m).
       (status a = ''resolved'') = resolved a"
proof
  fix a
  assume "reachable m" and a: "a \<in> set (alerts m) \<union> set (alert_history m) \<union> set (resolved_alerts m)"
  then have "unresolved_state m" by (simp add: reachable_unresolved)
  with a have "((status a = ''active'' \<or> status a = ''escalated'') \<and> \<not> resolved a)
                \<or> (status a = ''resolved'' \<and> resolved a)"
    unfolding unresolved_state_def by blast
  then show "(status a = ''resolved'') = resolved a" by auto
qed

theorem status_resolved_iff_witness:
  "reachable after_resolve
   \<and> alerts after_resolve \<noteq> [] \<and> resolved_alerts after_resolve \<noteq> []
   \<and> status (hd (alerts after_resolve)) = ''active'' \<and> \<not> resolved (hd (alerts after_resolve))
   \<and> status (hd (resolved_alerts after_resolve)) = ''resolved''
   \<and> resolved (hd (resolved_alerts after_resolve))
   \<and> (status (hd (alerts after_resolve)) = ''resolved'') = resolved (hd (alerts after_resolve))
   \<and> (status (hd (resolved_alerts after_resolve)) = ''resolved'')
        = resolved (hd (resolved_alerts after_resolve))"
  using status_resolved_iff[OF reachable_after_resolve] reachable_after_resolve
  by (simp add: after_resolve_alerts after_resolve_resolved created_fields)

lemma length_two_filters:
  "\<forall>x \<in> set xs. P x \<or> Q x \<Longrightarrow> \<forall>x \<in> set xs. \<not> (P x \<and> Q x) \<Longrightarrow>
     length xs = length (filter P xs) + length (filter Q xs)"
  by (induction xs) auto

text \<open>
  C9. In every such manager each alert of the list has status \<open>active\<close> or
  \<open>escalated\<close>, and the statistics report has
  \<open>total_alerts = active_alerts + escalated_alerts\<close>.
\<close>

theorem statistics_total:
  "reachable m \<Longrightarrow>
     (\<forall>a \<in> set (alerts m). status a = ''active'' \<or> status a = ''escalated'')
     \<and> total_alerts (get_alert_statistics m)
         = active_alerts (get_alert_statistics m) + escalated_alerts (get_alert_statistics m)"
proof -
  assume "reachable m"
  then have "unresolved_state m" by (rule reachable_unresolved)
  then have u: "\<forall>a \<in> set (alerts m). status a = ''active'' \<or> status a = ''escalated''"
    unfolding unresolved_state_def by blast
  have d: "\<forall>a \<in> set (alerts m). \<not> (status a = ''active'' \<and> status a = ''escalated'')"
    by simp
  from length_two_filters[OF u d] u show ?thesis
    by (simp add: get_alert_statistics_def)
qed

theorem statistics_total_witness:
  "reachable one_alert
   \<and> (status (hd (alerts one_alert)) = ''active'' \<or> status (hd (alerts one_alert)) = ''escalated'')
   \<and> total_alerts (get_alert_statistics one_alert) = 1
   \<and> total_alerts (get_alert_statistics one_alert)
       = active_alerts (get_alert_statistics one_alert)
         + escalated_alerts (get_alert_statistics one_alert)"
  using statistics_total[OF reachable_one_alert] reachable_one_alert
  by (simp add: one_alert_alerts get_alert_statistics_def)

section \<open>Export\<close>

lemma capital_shift:
  fixes n k :: nat
  assumes "n < 256" and "(65 \<le> n \<and> n \<le> 90) \<or> (192 \<le> n \<and> n \<le> 222 \<and> n \<noteq> 215)"
    and "k = (n + 32) mod 256" and "97 \<le> k" and "k \<le> 122"
  shows "n + 32 = k"
proof -
  from assms(1,2) have "n + 32 < 256" by arith
  then have "(n + 32) mod 256 = n + 32" by (rule mod_less)
  with assms(3) show ?thesis by simp
qed

lemma lower_char_unfold:
  "lower_char c =
     (if (65 \<le> (of_char c :: nat) \<and> (of_char c :: nat) \<le> 90)
         \<or> (192 \<le> (of_char c :: nat) \<and> (of_char c :: nat) \<le> 222 \<and> (of_char c :: nat) \<noteq> 215)
      then char_of ((of_char c :: nat) + 32) else c)"
  unfolding lower_char_def Let_def by (rule refl)

lemma lower_char_either_case:
  assumes "lower_char c = l" and "ascii_lowercase l"
  shows "either_case c l"
proof -
  define n where "n = (of_char c :: nat)"
  have n: "n < 256" unfolding n_def by (rule nat_of_char_less_256)
  show ?thesis
  proof (cases "(65 \<le> n \<and> n \<le> 90) \<or> (192 \<le> n \<and> n \<le> 222 \<and> n \<noteq> 215)")
    case False
    then have "lower_char c = c"
      unfolding lower_char_unfold n_def[symmetric] by (rule if_not_P)
    with assms(1) have "c = l" by simp
    then show ?thesis unfolding either_case_def by (rule disjI1)
  next
    case True
    then have "lower_char c = char_of (n + 32)"
      unfolding lower_char_unfold n_def[symmetric] by (rule if_P)
    with assms(1) have "l = char_of (n + 32)" by simp
    then have "(of_char l :: nat) = (n + 32) mod 256" by (simp only: of_char_of)
    from capital_shift[OF n True this] assms(2)
    have "n + 32 = of_char l" unfolding ascii_lowercase_def by (elim conjE) 
    then show ?thesis unfolding either_case_def n_def by (rule disjI2)
  qed
qed

lemma lower_equals_ignoring_case:
  "lower s = t \<Longrightarrow> list_all ascii_lowercase t \<Longrightarrow> equals_ignoring_case s t"
  unfolding lower_def equals_ignoring_case_def
proof (induction s arbitrary: t)
  case Nil
  then show ?case by simp
next
  case (Cons c s)
  then obtain l t' where t: "t = l # t'" "lower_char c = l" "map lower_char s = t'" by auto
  with Cons.prems(2) have "ascii_lowercase l" "list_all ascii_lowercase t'" by simp_all
  with t Cons.IH[of t'] show ?case by (simp add: lower_char_either_case)
qed

lemma either_case_lower_char:
  assumes "either_case c l" and "ascii_lowercase l"
  shows "lower_char c = l"
proof -
  define n where "n = (of_char c :: nat)"
  define k where "k = (of_char l :: nat)"
  from assms(2) have k: "97 \<le> k" "k \<le> 122" unfolding ascii_lowercase_def k_def by blast+
  show ?thesis
  proof (cases "c = l")
    case True
    then have "n = k" unfolding n_def k_def by simp
    with k have "\<not> ((65 \<le> n \<and> n \<le> 90) \<or> (192 \<le> n \<and> n \<le> 222 \<and> n \<noteq> 215))" by arith
    then have "lower_char c = c"
      unfolding lower_char_unfold n_def[symmetric] by (rule if_not_P)
    with True show ?thesis by simp
  next
    case False
    with assms(1) have e: "n + 32 = k" unfolding either_case_def n_def k_def by blast
    with k have "(65 \<le> n \<and> n \<le> 90) \<or> (192 \<le> n \<and> n \<le> 222 \<and> n \<noteq> 215)" by arith
    then have "lower_char c = char_of (n + 32)"
      unfolding lower_char_unfold n_def[symmetric] by (rule if_P)
    also have "\<dots> = char_of k" using e by simp
    also have "\<dots> = l" unfolding k_def by (rule char_of_char)
    finally show ?thesis .
  qed
qed

lemma equals_ignoring_case_lower:
  "equals_ignoring_case s t \<Longrightarrow> list_all ascii_lowercase t \<Longrightarrow> lower s = t"
  unfolding lower_def equals_ignoring_case_def
  by (induction s t rule: list_all2_induct) (simp_all add: either_case_lower_char)

lemma lowercase_names:
  "list_all ascii_lowercase ''json''" "list_all ascii_lowercase ''csv''"
  by (simp_all add: ascii_lowercase_def)

lemma lower_iff_equals_ignoring_case:
  "(lower s = ''json'') = equals_ignoring_case s ''json''"
  "(lower s = ''csv'') = equals_ignoring_case s ''csv''"
proof -
  show "(lower s = ''json'') = equals_ignoring_case s ''json''"
    using lower_equals_ignoring_case[OF _ lowercase_names(1)]
      equals_ignoring_case_lower[OF _ lowercase_names(1)] by (rule iffI)
  show "(lower s = ''csv'') = equals_ignoring_case s ''csv''"
    using lower_equals_ignoring_case[OF _ lowercase_names(2)]
      equals_ignoring_case_lower[OF _ lowercase_names(2)] by (rule iffI)
qed

text \<open>
  C8. For every format string other than \<open>json\<close> and \<open>csv\<close>, compared without regard
  to case, \<open>export_alerts\<close> returns its dedicated unsupported-format value, the string
  \<open>Unsupported format. Use 'json' or 'csv'\<close>; it raises nothing, and it leaves the
  manager as it is, since it only reads it.
\<close>

theorem export_unsupported:
  "\<not> equals_ignoring_case format ''json'' \<Longrightarrow> \<not> equals_ignoring_case format ''csv'' \<Longrightarrow>
     export_alerts json_dumps field_str format m = unsupported_format"
  by (simp only: export_alerts_def lower_iff_equals_ignoring_case if_False)

lemma not_json_csv:
  "\<not> equals_ignoring_case ''XML'' ''json''"
  "\<not> equals_ignoring_case ''XML'' ''csv''"
  by (simp_all add: equals_ignoring_case_def either_case_def)

theorem export_unsupported_witness:
  "\<not> equals_ignoring_case ''XML'' ''json'' \<and> \<not> equals_ignoring_case ''XML'' ''csv''
   \<and> export_alerts (\<lambda>xs. ''[]'') (\<lambda>a h. h) ''XML'' one_alert = unsupported_format"
  using export_unsupported[OF not_json_csv] not_json_csv by simp

section \<open>Create, resolve, escalate\<close>

lemma find_alert_created:
  "find_alert [fst (create_alert now rnd th m)] (alert_id (fst (create_alert now rnd th m))) = Some 0"
  by simp

text \<open>
  C1, evaluated on the code. On a new manager, \<open>create_alert\<close> followed by
  \<open>resolve_alert\<close> with the id of the alert created returns True and leaves no active
  alert; the history still holds the copy made at creation, whose \<open>resolved\<close> flag is
  False and whose status is \<open>active\<close>. The comment in \<open>resolve_alert\<close> announces a move
  to the history that the code does not make.
\<close>

theorem create_resolve_history:
  "fst (resolve_alert t2 (alert_id (fst (create_alert t1 rnd th AlertManager_init))) user nts
          (snd (create_alert t1 rnd th AlertManager_init)))
   \<and> get_active_alerts
        (snd (resolve_alert t2 (alert_id (fst (create_alert t1 rnd th AlertManager_init))) user nts
                (snd (create_alert t1 rnd th AlertManager_init)))) = []
   \<and> alert_history
        (snd (resolve_alert t2 (alert_id (fst (create_alert t1 rnd th AlertManager_init))) user nts
                (snd (create_alert t1 rnd th AlertManager_init))))
       = [fst (create_alert t1 rnd th AlertManager_init)]
   \<and> resolved (fst (create_alert t1 rnd th AlertManager_init)) = False
   \<and> status (fst (create_alert t1 rnd th AlertManager_init)) = ''active''"
proof -
  let ?a = "fst (create_alert t1 rnd th AlertManager_init)"
  let ?m = "snd (create_alert t1 rnd th AlertManager_init)"
  have al: "alerts ?m = [?a]" and hi: "alert_history ?m = [?a]"
    by (simp_all add: create_alert_def Let_def AlertManager_init_def)
  have f: "find_alert (alerts ?m) (alert_id ?a) = Some 0"
    by (simp add: al)
  have 1: "fst (resolve_alert t2 (alert_id ?a) user nts ?m)"
    by (simp add: resolve_alert_def f Let_def)
  have 2: "alerts (snd (resolve_alert t2 (alert_id ?a) user nts ?m)) = []"
    by (simp add: alerts_resolve_alert[OF f] al)
  have 3: "alert_history (snd (resolve_alert t2 (alert_id ?a) user nts ?m)) = [?a]"
    by (simp add: history_resolve_alert hi)
  from 1 2 3 show ?thesis
    by (simp add: get_active_alerts_def created_fields)
qed

text \<open>
  C10. After \<open>escalate_alert\<close> has returned True for an id, the alert that the id finds
  is still in the list, at the same position, with status \<open>escalated\<close>, and it is not
  among the active alerts. \<open>acknowledge_alert\<close> on that id then returns True and writes
  the acknowledgement (flag, actor, time) to that alert, whose status stays
  \<open>escalated\<close>; \<open>resolve_alert\<close> on that id returns True, takes the alert out of the
  list and leaves it marked resolved, with the time and the notes.
\<close>

theorem escalated_alert:
  assumes "fst (escalate_alert now aid m)"
  shows "find_alert (alerts (snd (escalate_alert now aid m))) aid = find_alert (alerts m) aid
     \<and> find_alert (alerts (snd (escalate_alert now aid m))) aid \<noteq> None
     \<and> (\<forall>i. find_alert (alerts (snd (escalate_alert now aid m))) aid = Some i \<longrightarrow>
           i < length (alerts (snd (escalate_alert now aid m)))
           \<and> status (alerts (snd (escalate_alert now aid m)) ! i) = ''escalated''
           \<and> alerts (snd (escalate_alert now aid m)) ! i \<in> set (alerts (snd (escalate_alert now aid m)))
           \<and> alerts (snd (escalate_alert now aid m)) ! i
               \<notin> set (get_active_alerts (snd (escalate_alert now aid m)))
           \<and> alerts (snd (acknowledge_alert t1 aid user (snd (escalate_alert now aid m))))
               = (alerts (snd (escalate_alert now aid m)))
                   [i := (alerts (snd (escalate_alert now aid m)) ! i)
                      \<lparr>acknowledged := True, acknowledged_by := Some user,
                       acknowledged_at := Some t1\<rparr>]
           \<and> acknowledged (alerts (snd (acknowledge_alert t1 aid user
                                           (snd (escalate_alert now aid m)))) ! i)
           \<and> acknowledged_by (alerts (snd (acknowledge_alert t1 aid user
                                           (snd (escalate_alert now aid m)))) ! i) = Some user
           \<and> acknowledged_at (alerts (snd (acknowledge_alert t1 aid user
                                           (snd (escalate_alert now aid m)))) ! i) = Some t1
           \<and> status (alerts (snd (acknowledge_alert t1 aid user
                                           (snd (escalate_alert now aid m)))) ! i) = ''escalated''
           \<and> alerts (snd (resolve_alert t2 aid user' nts (snd (escalate_alert now aid m))))
               = take i (alerts (snd (escalate_alert now aid m)))
                 @ drop (Suc i) (alerts (snd (escalate_alert now aid m)))
           \<and> resolved_alerts (snd (resolve_alert t2 aid user' nts (snd (escalate_alert now aid m))))
               = resolved_alerts m
                 @ [(alerts (snd (escalate_alert now aid m)) ! i)
                      \<lparr>status := ''resolved'', resolved := True, resolved_at := Some t2,
                       resolution_notes := nts\<rparr>])
     \<and> fst (acknowledge_alert t1 aid user (snd (escalate_alert now aid m)))
     \<and> fst (resolve_alert t2 aid user' nts (snd (escalate_alert now aid m)))"
proof -
  let ?m1 = "snd (escalate_alert now aid m)"
  from assms obtain i where i: "find_alert (alerts m) aid = Some i"
    and act: "status (alerts m ! i) = ''active''"
    by (auto simp add: escalate_alert_def split: option.splits if_splits)
  let ?a = "(alerts m ! i)\<lparr>status := ''escalated'', escalation_time := now\<rparr>"
  have al: "alerts ?m1 = (alerts m)[i := ?a]"
    by (simp add: escalate_alert_def i act)
  have ra: "resolved_alerts ?m1 = resolved_alerts m"
    by (simp add: escalate_alert_def i act)
  have f1: "find_alert (alerts ?m1) aid = Some i"
    unfolding al using i by (rule find_alert_update_same_id) simp
  from find_alert_Some[OF i] have lt: "i < length (alerts m)" by simp
  then have nth: "alerts ?m1 ! i = ?a" by (simp add: al)
  have len: "i < length (alerts ?m1)" using lt by (simp add: al)
  have mem: "alerts ?m1 ! i \<in> set (alerts ?m1)" using len by (rule nth_mem)
  have notact: "alerts ?m1 ! i \<notin> set (get_active_alerts ?m1)"
    by (simp add: get_active_alerts_def nth)
  have ack: "fst (acknowledge_alert t1 aid user ?m1)"
    by (simp add: acknowledge_alert_def f1)
  have ackl: "alerts (snd (acknowledge_alert t1 aid user ?m1))
                = (alerts ?m1)[i := (alerts ?m1 ! i)\<lparr>acknowledged := True, acknowledged_by := Some user,
                                                     acknowledged_at := Some t1\<rparr>]"
    by (simp add: acknowledge_alert_def f1)
  have ackn: "alerts (snd (acknowledge_alert t1 aid user ?m1)) ! i
                = (alerts ?m1 ! i)\<lparr>acknowledged := True, acknowledged_by := Some user,
                                     acknowledged_at := Some t1\<rparr>"
    unfolding ackl using len by (rule nth_list_update_eq)
  have res: "fst (resolve_alert t2 aid user' nts ?m1)"
    by (simp add: resolve_alert_def f1 Let_def)
  have resl: "alerts (snd (resolve_alert t2 aid user' nts ?m1))
                = take i (alerts ?m1) @ drop (Suc i) (alerts ?m1)"
    by (rule alerts_resolve_alert[OF f1])
  have resr: "resolved_alerts (snd (resolve_alert t2 aid user' nts ?m1))
                = resolved_alerts m @ [(alerts ?m1 ! i)\<lparr>status := ''resolved'', resolved := True,
                     resolved_at := Some t2, resolution_notes := nts\<rparr>]"
    by (simp add: resolved_alerts_resolve_alert f1 ra)
  have st: "status (alerts ?m1 ! i) = ''escalated''" by (simp add: nth)
  have fields: "acknowledged (alerts (snd (acknowledge_alert t1 aid user ?m1)) ! i)"
    "acknowledged_by (alerts (snd (acknowledge_alert t1 aid user ?m1)) ! i) = Some user"
    "acknowledged_at (alerts (snd (acknowledge_alert t1 aid user ?m1)) ! i) = Some t1"
    "status (alerts (snd (acknowledge_alert t1 aid user ?m1)) ! i) = ''escalated''"
    by (simp_all add: ackn st)
  have same: "find_alert (alerts ?m1) aid = find_alert (alerts m) aid" by (simp add: f1 i)
  have all: "j = i" if "find_alert (alerts ?m1) aid = Some j" for j
    using that f1 by simp
  show ?thesis
  proof (intro conjI allI impI)
    show "find_alert (alerts ?m1) aid = find_alert (alerts m) aid" by (rule same)
    show "find_alert (alerts ?m1) aid \<noteq> None" by (simp add: f1)
    show "fst (acknowledge_alert t1 aid user ?m1)" by (rule ack)
    show "fst (resolve_alert t2 aid user' nts ?m1)" by (rule res)
  qed (use all len st mem notact ackl fields resl resr in simp_all)
qed

lemma escalate_one_alert: "fst (escalate_alert 150 one_alert_id one_alert)"
  by (simp add: escalate_alert_def one_alert_alerts one_alert_id_def created_fields)

theorem escalated_alert_witness:
  "fst (escalate_alert 150 one_alert_id one_alert)
   \<and> find_alert (alerts (snd (escalate_alert 150 one_alert_id one_alert))) one_alert_id = Some 0
   \<and> status (alerts (snd (escalate_alert 150 one_alert_id one_alert)) ! 0) = ''escalated''
   \<and> get_active_alerts (snd (escalate_alert 150 one_alert_id one_alert)) = []
   \<and> fst (acknowledge_alert 160 one_alert_id ''admin'' (snd (escalate_alert 150 one_alert_id one_alert)))
   \<and> acknowledged (alerts (snd (acknowledge_alert 160 one_alert_id ''admin''
                                   (snd (escalate_alert 150 one_alert_id one_alert)))) ! 0)
   \<and> acknowledged_by (alerts (snd (acknowledge_alert 160 one_alert_id ''admin''
                                   (snd (escalate_alert 150 one_alert_id one_alert)))) ! 0)
        = Some ''admin''
   \<and> fst (resolve_alert 170 one_alert_id ''admin'' None (snd (escalate_alert 150 one_alert_id one_alert)))
   \<and> alerts (snd (resolve_alert 170 one_alert_id ''admin'' None
                     (snd (escalate_alert 150 one_alert_id one_alert)))) = []
   \<and> status (last (resolved_alerts (snd (resolve_alert 170 one_alert_id ''admin'' None
                     (snd (escalate_alert 150 one_alert_id one_alert)))))) = ''resolved''
   \<and> resolved (last (resolved_alerts (snd (resolve_alert 170 one_alert_id ''admin'' None
                     (snd (escalate_alert 150 one_alert_id one_alert))))))"
proof -
  let ?m1 = "snd (escalate_alert 150 one_alert_id one_alert)"
  note t = escalated_alert[OF escalate_one_alert, of 160 "''admin''" 170 "''admin''" None]
  from t have f1: "find_alert (alerts ?m1) one_alert_id = Some 0"
    by (simp add: find_one_alert)
  from t f1 have at0:
    "status (alerts ?m1 ! 0) = ''escalated''"
    "alerts ?m1 ! 0 \<notin> set (get_active_alerts ?m1)"
    "acknowledged (alerts (snd (acknowledge_alert 160 one_alert_id ''admin'' ?m1)) ! 0)"
    "acknowledged_by (alerts (snd (acknowledge_alert 160 one_alert_id ''admin'' ?m1)) ! 0) = Some ''admin''"
    "alerts (snd (resolve_alert 170 one_alert_id ''admin'' None ?m1))
       = take 0 (alerts ?m1) @ drop (Suc 0) (alerts ?m1)"
    "resolved_alerts (snd (resolve_alert 170 one_alert_id ''admin'' None ?m1))
       = resolved_alerts one_alert
         @ [(alerts ?m1 ! 0)\<lparr>status := ''resolved'', resolved := True, resolved_at := Some 170,
                                resolution_notes := None\<rparr>]"
    by blast+
  from t have ok: "fst (acknowledge_alert 160 one_alert_id ''admin'' ?m1)"
    "fst (resolve_alert 170 one_alert_id ''admin'' None ?m1)" by blast+
  have len: "length (alerts ?m1) = 1"
    by (simp add: escalate_alert_def find_one_alert one_alert_alerts created_fields)
  then obtain x where x: "alerts ?m1 = [x]" by (cases "alerts ?m1") auto
  with at0(1,2) have g: "get_active_alerts ?m1 = []"
    by (simp add: get_active_alerts_def)
  from x at0(5) have e: "alerts (snd (resolve_alert 170 one_alert_id ''admin'' None ?m1)) = []"
    by simp
  from at0(6) have r:
    "status (last (resolved_alerts (snd (resolve_alert 170 one_alert_id ''admin'' None ?m1)))) = ''resolved''"
    "resolved (last (resolved_alerts (snd (resolve_alert 170 one_alert_id ''admin'' None ?m1))))"
    by simp_all
  from escalate_one_alert f1 at0(1,3,4) g ok e r show ?thesis by blast
qed

section \<open>The loop of auto-resolution\<close>

lemma find_alert_append_Some:
  "find_alert xs aid = Some i \<Longrightarrow> find_alert (xs @ ys) aid = Some i"
  by (induction xs arbitrary: i) (auto split: if_splits)

lemma find_alert_append_None:
  "find_alert xs (alert_id a) = None \<Longrightarrow> find_alert (xs @ a # as) (alert_id a) = Some (length xs)"
  by (induction xs) (auto split: if_splits)

lemma find_alert_prefix_lt:
  "find_alert xs aid = Some i \<Longrightarrow> i < length xs"
  using find_alert_Some by blast

lemma resolve_in_loop:
  assumes "alerts m = kept @ a # as"
  shows "\<exists>kept'. alerts (snd (resolve_alert now (alert_id a) user nts m)) = kept' @ as
                 \<and> length kept' = length kept"
proof (cases "find_alert kept (alert_id a)")
  case None
  then have f: "find_alert (alerts m) (alert_id a) = Some (length kept)"
    by (simp add: assms find_alert_append_None)
  have "alerts (snd (resolve_alert now (alert_id a) user nts m)) = kept @ as"
    by (simp add: alerts_resolve_alert[OF f] assms)
  then show ?thesis by blast
next
  case (Some i)
  then have f: "find_alert (alerts m) (alert_id a) = Some i"
    by (simp add: assms find_alert_append_Some)
  from Some have lt: "i < length kept" by (rule find_alert_prefix_lt)
  then have "alerts (snd (resolve_alert now (alert_id a) user nts m))
               = (take i kept @ drop (Suc i) kept @ [a]) @ as"
    by (simp add: alerts_resolve_alert[OF f] assms)
  moreover have "length (take i kept @ drop (Suc i) kept @ [a]) = length kept"
    using lt by simp
  ultimately show ?thesis by blast
qed

lemma loop_count:
  "alerts m = kept @ rest \<Longrightarrow>
     length (alerts (snd (auto_resolve_loop now cm rest n m))) + fst (auto_resolve_loop now cm rest n m)
       = length (alerts m) + n"
proof (induction rest arbitrary: kept n m)
  case Nil
  then show ?case by simp
next
  case (Cons a as)
  have keep: "length (alerts (snd (auto_resolve_loop now cm as n m)))
                + fst (auto_resolve_loop now cm as n m) = length (alerts m) + n"
    using Cons.IH[of m "kept @ [a]" n] Cons.prems by simp
  have drop: "length (alerts (snd (auto_resolve_loop now cm as (n + 1)
                   (snd (resolve_alert now (alert_id a) user nts m)))))
                + fst (auto_resolve_loop now cm as (n + 1)
                   (snd (resolve_alert now (alert_id a) user nts m))) = length (alerts m) + n"
    for user nts
  proof -
    from resolve_in_loop[OF Cons.prems, of now user nts] obtain kept'
      where k: "alerts (snd (resolve_alert now (alert_id a) user nts m)) = kept' @ as"
        "length kept' = length kept" by blast
    from Cons.IH[OF k(1), of "n + 1"] k Cons.prems show ?thesis by simp
  qed
  from keep drop show ?case by simp
qed

lemma loop_skip:
  assumes "\<not> auto_resolvable cm a"
  shows "auto_resolve_loop now cm (a # as) n m = auto_resolve_loop now cm as n m"
proof (cases "auto_resolve a")
  case False
  then show ?thesis by simp
next
  case True
  note flagged = this
  show ?thesis
  proof (cases "alert_type a = ''resource_abuse''")
    case True
    with assms flagged have "\<not> check_resource_resolution a cm"
      by (simp add: auto_resolvable_def)
    with True flagged show ?thesis by simp
  next
    case False
    note not_resource = this
    show ?thesis
    proof (cases "alert_type a = ''network_anomaly''")
      case True
      with assms flagged not_resource have "\<not> check_network_resolution a cm"
        by (simp add: auto_resolvable_def)
      with True flagged not_resource show ?thesis by simp
    next
      case False
      with flagged not_resource show ?thesis by simp
    qed
  qed
qed

lemma loop_resolve:
  "auto_resolvable cm a \<Longrightarrow>
     \<exists>nts. auto_resolve_loop now cm (a # as) n m
             = auto_resolve_loop now cm as (n + 1)
                 (snd (resolve_alert now (alert_id a) ''system_auto_resolve'' nts m))"
proof (cases "alert_type a = ''resource_abuse''")
  case True
  assume "auto_resolvable cm a"
  with True have "auto_resolve a" "check_resource_resolution a cm"
    by (simp_all add: auto_resolvable_def)
  with True show ?thesis by (intro exI[of _ "Some ''Resource usage normalized''"]) simp
next
  case False
  assume r: "auto_resolvable cm a"
  with False have t: "alert_type a = ''network_anomaly''"
    unfolding auto_resolvable_def by (simp split: if_splits)
  with r False have "auto_resolve a" "check_network_resolution a cm"
    by (simp_all add: auto_resolvable_def)
  with False t show ?thesis by (intro exI[of _ "Some ''Network activity normalized''"]) simp
qed

lemma loop_distinct:
  "alerts m = kept @ rest \<Longrightarrow> distinct (map alert_id (alerts m)) \<Longrightarrow>
     alerts (snd (auto_resolve_loop now cm rest n m))
       = kept @ filter (\<lambda>a. \<not> auto_resolvable cm a) rest
     \<and> printed (snd (auto_resolve_loop now cm rest n m))
       = printed m @ map (\<lambda>a. AlertResolved (alert_id a) ''system_auto_resolve'')
                       (filter (auto_resolvable cm) rest)"
proof (induction rest arbitrary: kept n m)
  case Nil
  then show ?case by simp
next
  case (Cons a as)
  show ?case
  proof (cases "auto_resolvable cm a")
    case False
    from Cons.IH[of m "kept @ [a]" n] Cons.prems
    have "alerts (snd (auto_resolve_loop now cm as n m))
            = kept @ [a] @ filter (\<lambda>a. \<not> auto_resolvable cm a) as
          \<and> printed (snd (auto_resolve_loop now cm as n m))
            = printed m @ map (\<lambda>a. AlertResolved (alert_id a) ''system_auto_resolve'')
                            (filter (auto_resolvable cm) as)"
      by simp
    with False show ?thesis
      by (simp only: loop_skip[OF False]) simp
  next
    case True
    from loop_resolve[OF True] obtain nts where
      l: "auto_resolve_loop now cm (a # as) n m
            = auto_resolve_loop now cm as (n + 1)
                (snd (resolve_alert now (alert_id a) ''system_auto_resolve'' nts m))"
      by blast
    have "find_alert kept (alert_id a) = None"
      using Cons.prems by (auto simp add: find_alert_None)
    then have f: "find_alert (alerts m) (alert_id a) = Some (length kept)"
      by (simp add: Cons.prems find_alert_append_None)
    have step1: "alerts (snd (resolve_alert now (alert_id a) ''system_auto_resolve'' nts m)) = kept @ as"
      using Cons.prems by (simp add: alerts_resolve_alert[OF f])
    have step2: "printed (snd (resolve_alert now (alert_id a) ''system_auto_resolve'' nts m))
         = printed m @ [AlertResolved (alert_id a) ''system_auto_resolve'']"
      by (simp add: resolve_alert_def f Let_def)
    have d: "distinct (map alert_id (kept @ as))"
      using Cons.prems by simp
    have "alerts (snd (auto_resolve_loop now cm as (n + 1)
                   (snd (resolve_alert now (alert_id a) ''system_auto_resolve'' nts m))))
            = kept @ filter (\<lambda>a. \<not> auto_resolvable cm a) as
          \<and> printed (snd (auto_resolve_loop now cm as (n + 1)
                   (snd (resolve_alert now (alert_id a) ''system_auto_resolve'' nts m))))
            = printed m @ [AlertResolved (alert_id a) ''system_auto_resolve'']
                 @ map (\<lambda>a. AlertResolved (alert_id a) ''system_auto_resolve'')
                            (filter (auto_resolvable cm) as)"
      using Cons.IH[OF step1, of "n + 1"] d by (simp add: step1 step2)
    with True show ?thesis
      by (simp only: l) simp
  qed
qed

lemma alerts_auto_resolve_alerts:
  "alerts (snd (auto_resolve_alerts now cm m)) = alerts (snd (auto_resolve_loop now cm (alerts m) 0 m))"
  by (simp add: auto_resolve_alerts_def split_beta)


text \<open>
  C2, as the code has it. \<open>auto_resolve_alerts\<close> has no \<open>return\<close>: for every metrics
  input and every manager it returns None. The count it keeps equals the number of alerts
  that left the list during the call, and it is printed when it is positive.
\<close>

theorem auto_resolve_returns_none:
  "fst (auto_resolve_alerts now cm m) = PyNone
   \<and> length (alerts (snd (auto_resolve_alerts now cm m))) + fst (auto_resolve_loop now cm (alerts m) 0 m)
       = length (alerts m)
   \<and> (0 < fst (auto_resolve_loop now cm (alerts m) 0 m) \<longrightarrow>
        last (printed (snd (auto_resolve_alerts now cm m)))
          = AutoResolved (fst (auto_resolve_loop now cm (alerts m) 0 m)))"
  using loop_count[of m "[]" "alerts m" now cm 0]
  by (simp add: auto_resolve_alerts_def split_beta)

lemma one_alert_fields:
  "auto_resolve (fst (create_alert 100 1234 cpu_threat AlertManager_init))"
  "alert_type (fst (create_alert 100 1234 cpu_threat AlertManager_init)) = ''resource_abuse''"
  "description (fst (create_alert 100 1234 cpu_threat AlertManager_init)) = ''High CPU usage detected: 96%''"
  by (simp_all add: created_fields cpu_threat_eq mk_threat_def get_or_def alert_rules_def
      resource_abuse_rule_def)

lemma check_cpu_data:
  "startswith (description a) ''High CPU usage'' \<Longrightarrow>
     check_resource_resolution a cm
       = (system_metrics cm \<noteq> [] \<and> get0 (cpu_usage_percent (last (system_metrics cm))) < 70)"
  by (simp add: check_resource_resolution_def resource_abuse_rule_def Let_def)

lemma one_alert_startswith:
  "startswith (description (fst (create_alert 100 1234 cpu_threat AlertManager_init))) ''High CPU usage''"
  by (simp add: one_alert_fields startswith_def)

lemma one_alert_resolvable:
  "auto_resolvable (cpu_data c) (fst (create_alert 100 1234 cpu_threat AlertManager_init)) = (c < 70)"
  by (simp add: auto_resolvable_def one_alert_fields(1,2) check_cpu_data[OF one_alert_startswith]
      cpu_data_def snapshot_with_cpu_def get0_def)

lemma one_alert_distinct: "distinct (map alert_id (alerts one_alert))"
  by (simp add: one_alert_alerts)

lemma loop_one_alert:
  "fst (auto_resolve_loop now (cpu_data 50) (alerts one_alert) 0 one_alert) = 1"
  "alerts (snd (auto_resolve_loop now (cpu_data 50) (alerts one_alert) 0 one_alert)) = []"
proof -
  have r: "auto_resolvable (cpu_data 50) (fst (create_alert 100 1234 cpu_threat AlertManager_init))"
    by (simp add: one_alert_resolvable)
  from loop_distinct[of one_alert "[]" "alerts one_alert" now "cpu_data 50" 0] one_alert_distinct
  show 2: "alerts (snd (auto_resolve_loop now (cpu_data 50) (alerts one_alert) 0 one_alert)) = []"
    by (simp add: one_alert_alerts r)
  from loop_count[of one_alert "[]" "alerts one_alert" now "cpu_data 50" 0] 2
  show "fst (auto_resolve_loop now (cpu_data 50) (alerts one_alert) 0 one_alert) = 1"
    by (simp add: one_alert_alerts)
qed

lemma auto_resolve_one_alert:
  "alerts (snd (auto_resolve_alerts now (cpu_data 50) one_alert)) = []"
  "fst (auto_resolve_alerts now (cpu_data 50) one_alert) = PyNone"
proof -
  show "alerts (snd (auto_resolve_alerts now (cpu_data 50) one_alert)) = []"
    by (simp only: alerts_auto_resolve_alerts loop_one_alert)
  show "fst (auto_resolve_alerts now (cpu_data 50) one_alert) = PyNone"
    by (simp add: auto_resolve_alerts_def split_beta)
qed

theorem auto_resolve_returns_none_witness:
  "0 < fst (auto_resolve_loop 200 (cpu_data 50) (alerts one_alert) 0 one_alert)
   \<and> fst (auto_resolve_alerts 200 (cpu_data 50) one_alert) = PyNone
   \<and> length (alerts one_alert) = 1
   \<and> alerts (snd (auto_resolve_alerts 200 (cpu_data 50) one_alert)) = []
   \<and> last (printed (snd (auto_resolve_alerts 200 (cpu_data 50) one_alert))) = AutoResolved 1"
proof -
  have n: "fst (auto_resolve_loop 200 (cpu_data 50) (alerts one_alert) 0 one_alert) = 1"
    by (rule loop_one_alert)
  have len: "length (alerts one_alert) = 1" by (simp add: one_alert_alerts)
  from auto_resolve_returns_none[of 200 "cpu_data 50" one_alert]
  have "last (printed (snd (auto_resolve_alerts 200 (cpu_data 50) one_alert))) = AutoResolved 1"
    unfolding n by simp
  with n len auto_resolve_one_alert[of 200] show ?thesis by simp
qed

text \<open>
  C2 as the spec states it fails: with one resolvable alert in the list and a snapshot at
  CPU usage 50, one alert is resolved, and the value returned is not the integer 1.
\<close>

theorem auto_resolve_count_counterexample:
  "length (alerts one_alert) - length (alerts (snd (auto_resolve_alerts 200 (cpu_data 50) one_alert))) = 1
   \<and> fst (auto_resolve_alerts 200 (cpu_data 50) one_alert) \<noteq> PyInt 1"
proof -
  have len: "length (alerts one_alert) = 1" by (simp add: one_alert_alerts)
  show ?thesis
    by (simp only: auto_resolve_one_alert len) simp
qed

section \<open>Auto-resolution of a CPU alert\<close>




























end
